theory Spec2Isabelle
  imports Main
begin

section \<open>Values of the host language\<close>

text \<open>
  The program is a JavaScript module (\<open>src/index.js\<close>): a base class \<open>ApiError\<close>, thirteen
  subclasses, a static \<open>parse\<close> and the serialisation \<open>toJSON\<close>. Its functions take and
  return untyped values, so the embedding starts with the values the program handles:
  primitives, arrays, plain objects (an association list of own properties, in insertion
  order) and instances of the program's own classes. Numbers are integers (status codes),
  strings are lists of code units below 256.

  An instance carries its class and the fields the base constructor assigns. The private
  field \<open>_name\<close> of the source is the selector \<open>name\<close> here, and so on for \<open>_entity\<close>,
  \<open>_statusCode\<close>, \<open>_options\<close>, \<open>_keyPath\<close>, \<open>_origin\<close>, \<open>_underlying\<close> and \<open>_errors\<close>:
  the public getters of the class return exactly these fields. \<open>_stacked\<close> is
  \<open>stacked_field\<close> (the getter \<open>stacked\<close> computes), and \<open>stack\<close> is the trace the host
  captured when the instance was built.
\<close>

datatype cls = ApiError | NotAuthorized | PaymentRequired | Forbidden | NotFound | Conflict
  | MethodNotAllowed | BadRequest | TooManyRequests | PayloadTooLarge | InternalError
  | NotImplemented | ServiceUnavailable | Aggregated

datatype jsval = JUndefined | JNull | JBool bool | JNum int | JStr string
  | JArr "jsval list" | JObj "(string \<times> jsval) list" | JErr api_error
and api_error = Instance (cls: cls) (message: jsval) (name: jsval) (entity: jsval)
  (statusCode: jsval) (stacked_field: jsval) (options: "(string \<times> jsval) list")
  (keyPath: jsval) (origin: jsval) (underlying: jsval) (stack: jsval) (errors: jsval)

text \<open>
  A call of the program returns, throws, or leaves the part of the host language that is
  modelled here (a coercion of an object to a number, the external merge applied to
  something that is not a mapping). \<open>TypeError\<close> is the exception the program itself
  raises, with its message; \<open>HostTypeError\<close> is a \<open>TypeError\<close> the engine raises (a property
  of \<open>undefined\<close>, a call of something that is not a function), whose message depends on
  the engine.
\<close>

datatype exn = TypeError string | HostTypeError

datatype 'a outcome = Returns 'a | Throws exn | Unmodelled

definition truthy :: "jsval \<Rightarrow> bool" where
  "truthy v = (case v of JUndefined \<Rightarrow> False | JNull \<Rightarrow> False | JBool b \<Rightarrow> b
     | JNum n \<Rightarrow> n \<noteq> 0 | JStr s \<Rightarrow> s \<noteq> [] | _ \<Rightarrow> True)"

definition nullish :: "jsval \<Rightarrow> bool" where
  "nullish v = (v = JUndefined \<or> v = JNull)"

text \<open>\<open>typeof v === 'object' && v !== null\<close>\<close>

definition is_object :: "jsval \<Rightarrow> bool" where
  "is_object v = (case v of JArr _ \<Rightarrow> True | JObj _ \<Rightarrow> True | JErr _ \<Rightarrow> True | _ \<Rightarrow> False)"

subsection \<open>Plain objects\<close>

fun obj_get :: "(string \<times> jsval) list \<Rightarrow> string \<Rightarrow> jsval" where
  "obj_get [] k = JUndefined"
| "obj_get ((k', v) # kvs) k = (if k' = k then v else obj_get kvs k)"

fun obj_set :: "string \<Rightarrow> jsval \<Rightarrow> (string \<times> jsval) list \<Rightarrow> (string \<times> jsval) list" where
  "obj_set k v [] = [(k, v)]"
| "obj_set k v ((k', v') # kvs) =
     (if k' = k then (k, v) # kvs else (k', v') # obj_set k v kvs)"

text \<open>\<open>delete o[k]\<close>\<close>

definition obj_del :: "string \<Rightarrow> (string \<times> jsval) list \<Rightarrow> (string \<times> jsval) list" where
  "obj_del k kvs = filter (\<lambda>kv. fst kv \<noteq> k) kvs"

definition obj_keys :: "(string \<times> jsval) list \<Rightarrow> string list" where
  "obj_keys kvs = map fst kvs"

definition obj_has :: "(string \<times> jsval) list \<Rightarrow> string \<Rightarrow> bool" where
  "obj_has kvs k = (k \<in> set (obj_keys kvs))"

text \<open>
  Reading a property \<open>v.k\<close> of a value that is neither \<open>undefined\<close> nor \<open>null\<close>, for the
  property names the program reads (none of them is defined by \<open>Object.prototype\<close>). On an
  instance the names are its own fields and the getters of its class; the getter \<open>errors\<close>
  exists in \<open>Aggregated\<close> only.
\<close>

definition inst_prop :: "api_error \<Rightarrow> string \<Rightarrow> jsval" where
  "inst_prop e k =
     (if k = ''message'' then message e
      else if k = ''stack'' then stack e
      else if k = ''name'' \<or> k = ''_name'' then name e
      else if k = ''entity'' \<or> k = ''_entity'' then entity e
      else if k = ''statusCode'' \<or> k = ''_statusCode'' then statusCode e
      else if k = ''_stacked'' then stacked_field e
      else if k = ''options'' \<or> k = ''_options'' then JObj (options e)
      else if k = ''keyPath'' \<or> k = ''_keyPath'' then keyPath e
      else if k = ''origin'' \<or> k = ''_origin'' then origin e
      else if k = ''underlying'' \<or> k = ''_underlying'' then underlying e
      else if k = ''_errors'' then errors e
      else if k = ''errors'' then (if cls e = Aggregated then errors e else JUndefined)
      else JUndefined)"

fun read_prop :: "jsval \<Rightarrow> string \<Rightarrow> jsval" where
  "read_prop (JObj kvs) k = obj_get kvs k"
| "read_prop (JErr e) k = inst_prop e k"
| "read_prop (JStr s) k = (if k = ''length'' then JNum (int (length s)) else JUndefined)"
| "read_prop (JArr xs) k = (if k = ''length'' then JNum (int (length xs)) else JUndefined)"
| "read_prop v k = JUndefined"

text \<open>Reading a property of any value: the engine throws on \<open>undefined\<close> and \<open>null\<close>.\<close>

definition get_prop :: "jsval \<Rightarrow> string \<Rightarrow> jsval outcome" where
  "get_prop v k = (if nullish v then Throws HostTypeError else Returns (read_prop v k))"

subsection \<open>Strings\<close>

text \<open>\<open>s.split(c)\<close> for a separator of one character, and \<open>xs.join(sep)\<close> on strings.\<close>

fun split_on :: "char \<Rightarrow> string \<Rightarrow> string list" where
  "split_on c [] = [[]]"
| "split_on c (x # xs) =
     (if x = c then [] # split_on c xs
      else (case split_on c xs of w # ws \<Rightarrow> (x # w) # ws | [] \<Rightarrow> [[x]]))"

fun join_with :: "string \<Rightarrow> string list \<Rightarrow> string" where
  "join_with sep [] = []"
| "join_with sep [w] = w"
| "join_with sep (w # v # ws) = w @ sep @ join_with sep (v # ws)"

text \<open>
  \<open>s.split(/(?=[A-Z])/)\<close>: the string is cut before every letter \<open>A\<close> to \<open>Z\<close> that is not
  its first character.
\<close>

definition is_upper :: "char \<Rightarrow> bool" where
  "is_upper c = (65 \<le> (of_char c :: nat) \<and> (of_char c :: nat) \<le> 90)"

fun split_before_upper :: "string \<Rightarrow> string list" where
  "split_before_upper [] = [[]]"
| "split_before_upper (x # xs) =
     (case split_before_upper xs of
        w # ws \<Rightarrow> (if xs \<noteq> [] \<and> is_upper (hd xs) then [x] # w # ws else (x # w) # ws)
      | [] \<Rightarrow> [[x]])"

text \<open>\<open>toLowerCase\<close> on code units below 256: the letters \<open>A\<close> to \<open>Z\<close> and the Latin-1 capitals.\<close>

definition to_lower :: "char \<Rightarrow> char" where
  "to_lower c =
     (let n = (of_char c :: nat)
      in if (65 \<le> n \<and> n \<le> 90) \<or> (192 \<le> n \<and> n \<le> 222 \<and> n \<noteq> 215)
         then char_of (n + 32) else c)"

text \<open>\<open>s.split(/(?=[A-Z])/).join('-').toLowerCase()\<close>\<close>

definition kebab :: "string \<Rightarrow> string" where
  "kebab s = map to_lower (join_with ''-'' (split_before_upper s))"

section \<open>The external merge\<close>

text \<open>
  Modelled from the spec: the package \<open>@trenskow/merge\<close>, which the program imports and
  which is not part of the repository. The spec gives its contract:
  \<open>merge(target, ...sources)\<close> returns a mapping, is a right-biased deep merge, does not
  change its inputs and handles nested mappings; for arrays the policy chosen here is
  that the later array wins. So a key of a later source replaces the value the result
  has so far, except that two mappings under the same key are merged key by key; a key
  that is new is appended.
\<close>

fun merge2 :: "jsval \<Rightarrow> jsval \<Rightarrow> jsval"
and merge_obj :: "(string \<times> jsval) list \<Rightarrow> (string \<times> jsval) list \<Rightarrow> (string \<times> jsval) list" where
  "merge2 (JObj a) (JObj b) = JObj (merge_obj a b)"
| "merge2 x y = y"
| "merge_obj a [] = a"
| "merge_obj a ((k, v) # b) =
     merge_obj (obj_set k (if obj_has a k then merge2 (obj_get a k) v else v) a) b"

definition merge :: "(string \<times> jsval) list \<Rightarrow> (string \<times> jsval) list list \<Rightarrow> (string \<times> jsval) list" where
  "merge target sources = foldl merge_obj target sources"

section \<open>Construction\<close>

text \<open>
  \<open>_correctArguments(message, options)\<close>: a first argument that is an object, with no
  (or a falsy) second one, is the options, and the message is its member \<open>message\<close>.
\<close>

definition correctArguments :: "jsval \<Rightarrow> jsval \<Rightarrow> jsval \<times> jsval" where
  "correctArguments m opts =
     (if is_object m \<and> \<not> truthy opts then (read_prop m ''message'', m)
      else (m, if truthy opts then opts else JObj []))"

text \<open>
  The body of the base constructor, for an instance of class \<open>c\<close> (the class named after
  \<open>new\<close>), the trace the host captures in \<open>super()\<close>, and corrected arguments whose options
  are a mapping. The constructor deletes five keys from the mapping, stores the
  mapping as \<open>_options\<close>, and then writes the split \<open>keyPath\<close> back into the same mapping,
  so \<open>_options\<close> is the mapping as it is at the end.
\<close>

definition ApiError_init :: "cls \<Rightarrow> string \<Rightarrow> jsval \<Rightarrow> (string \<times> jsval) list \<Rightarrow> api_error" where
  "ApiError_init c trace m o1 =
     (let nm = obj_get o1 ''name'';
          en = obj_get o1 ''entity'';
          sc = (if truthy (obj_get o1 ''statusCode'') then obj_get o1 ''statusCode''
                else JNum 500);
          sd = obj_get o1 ''stack'';
          o2 = obj_del ''stack'' (obj_del ''statusCode'' (obj_del ''entity''
                 (obj_del ''name'' (obj_del ''message'' o1))));
          o3 = (case obj_get o2 ''keyPath'' of
                  JStr s \<Rightarrow> obj_set ''keyPath'' (JArr (map JStr (split_on CHR ''.'' s))) o2
                | _ \<Rightarrow> o2)
      in Instance c m nm en sc sd o3 (obj_get o3 ''keyPath'')
           (obj_get o3 ''origin'') (obj_get o3 ''underlying'') (JStr trace) JUndefined)"

text \<open>
  The constructor of the base class. Options that are not a plain mapping are outside
  the model.
\<close>

definition ApiError_constructor :: "cls \<Rightarrow> string \<Rightarrow> jsval \<Rightarrow> jsval \<Rightarrow> api_error outcome" where
  "ApiError_constructor c trace a b =
     (case correctArguments a b of
        (m, JObj o1) \<Rightarrow> Returns (ApiError_init c trace m o1)
      | _ \<Rightarrow> Unmodelled)"

text \<open>
  The thirteen subclasses differ in three constants and in whether the member \<open>name\<close> of
  the options is honoured (\<open>options.name || '...'\<close>) or not.
\<close>

fun fixed_name :: "cls \<Rightarrow> string" where
  "fixed_name NotAuthorized = ''not-authorized''"
| "fixed_name PaymentRequired = ''payment-required''"
| "fixed_name Forbidden = ''forbidden''"
| "fixed_name NotFound = ''not-found''"
| "fixed_name Conflict = ''already-exists''"
| "fixed_name MethodNotAllowed = ''method-not-allowed''"
| "fixed_name BadRequest = ''bad-request''"
| "fixed_name TooManyRequests = ''too-many-requests''"
| "fixed_name PayloadTooLarge = ''payload-too-large''"
| "fixed_name InternalError = ''internal-error''"
| "fixed_name NotImplemented = ''not-implemented''"
| "fixed_name ServiceUnavailable = ''service-unavailable''"
| "fixed_name Aggregated = ''aggregated''"
| "fixed_name ApiError = []"

fun fixed_status :: "cls \<Rightarrow> int" where
  "fixed_status NotAuthorized = 401"
| "fixed_status PaymentRequired = 402"
| "fixed_status Forbidden = 403"
| "fixed_status NotFound = 404"
| "fixed_status Conflict = 409"
| "fixed_status MethodNotAllowed = 405"
| "fixed_status BadRequest = 400"
| "fixed_status TooManyRequests = 429"
| "fixed_status PayloadTooLarge = 413"
| "fixed_status InternalError = 500"
| "fixed_status NotImplemented = 501"
| "fixed_status ServiceUnavailable = 503"
| "fixed_status Aggregated = 400"
| "fixed_status ApiError = 500"

fun default_message :: "cls \<Rightarrow> string" where
  "default_message NotAuthorized = ''Not authorized.''"
| "default_message PaymentRequired = ''Payment required.''"
| "default_message Forbidden = ''Forbidden.''"
| "default_message NotFound = ''Resource not found.''"
| "default_message Conflict = ''Resource already exists.''"
| "default_message MethodNotAllowed = ''Method is not allowed.''"
| "default_message BadRequest = ''Bad request''"
| "default_message TooManyRequests = ''Too many requests.''"
| "default_message PayloadTooLarge = ''Payload too large.''"
| "default_message InternalError = ''Internal server error.''"
| "default_message NotImplemented = ''Not implemented.''"
| "default_message ServiceUnavailable = ''Service unavailable.''"
| "default_message Aggregated = ''Multiple errors occurred.''"
| "default_message ApiError = []"

definition honours_name :: "cls \<Rightarrow> bool" where
  "honours_name c = (c \<notin> {ApiError, NotAuthorized, PaymentRequired, Forbidden})"

text \<open>
  The object literal every subclass passes to \<open>merge\<close> as the last source, built from
  the corrected options.
\<close>

definition fixed_options :: "cls \<Rightarrow> (string \<times> jsval) list \<Rightarrow> (string \<times> jsval) list" where
  "fixed_options c o1 =
     [(''name'', if honours_name c \<and> truthy (obj_get o1 ''name'') then obj_get o1 ''name''
                 else JStr (fixed_name c)),
      (''statusCode'', JNum (fixed_status c))]"

text \<open>\<open>options.underlying?.errors || options.errors || []\<close> in the constructor of \<open>Aggregated\<close>.\<close>

definition initial_errors :: "(string \<times> jsval) list \<Rightarrow> jsval" where
  "initial_errors o1 =
     (let u = obj_get o1 ''underlying'';
          ue = (if nullish u then JUndefined else read_prop u ''errors'')
      in if truthy ue then ue
         else if truthy (obj_get o1 ''errors'') then obj_get o1 ''errors''
         else JArr [])"

definition with_errors :: "api_error \<Rightarrow> jsval \<Rightarrow> api_error" where
  "with_errors e v =
     Instance (cls e) (message e) (name e) (entity e) (statusCode e) (stacked_field e)
       (options e) (keyPath e) (origin e) (underlying e) (stack e) v"

text \<open>
  The constructor of a subclass \<open>c\<close>: the arguments are corrected, a falsy message is
  replaced by the default of the class, and the base constructor runs on
  \<open>merge({}, options, {name: ..., statusCode: ...})\<close>. \<open>Aggregated\<close> then sets \<open>_errors\<close>
  from its own (unmerged) options, without a check.
\<close>

definition subclass_constructor :: "cls \<Rightarrow> string \<Rightarrow> jsval \<Rightarrow> jsval \<Rightarrow> api_error outcome" where
  "subclass_constructor c trace a b =
     (case correctArguments a b of
        (m, JObj o1) \<Rightarrow>
          (case ApiError_constructor c trace
                  (if truthy m then m else JStr (default_message c))
                  (JObj (merge [] [o1, fixed_options c o1])) of
             Returns e \<Rightarrow> Returns (if c = Aggregated then with_errors e (initial_errors o1) else e)
           | Throws x \<Rightarrow> Throws x
           | Unmodelled \<Rightarrow> Unmodelled)
      | _ \<Rightarrow> Unmodelled)"

text \<open>\<open>new C(a, b)\<close>\<close>

definition construct :: "cls \<Rightarrow> string \<Rightarrow> jsval \<Rightarrow> jsval \<Rightarrow> api_error outcome" where
  "construct c trace a b =
     (if c = ApiError then ApiError_constructor c trace a b
      else subclass_constructor c trace a b)"

section \<open>Reconstruction from a payload\<close>

text \<open>\<open>_type(name)\<close>: a \<open>switch\<close> on the name, by strict equality.\<close>

definition type_of_name :: "jsval \<Rightarrow> cls" where
  "type_of_name n =
     (if n = JStr ''not-authorized'' then NotAuthorized
      else if n = JStr ''payment-required'' then PaymentRequired
      else if n = JStr ''forbidden'' then Forbidden
      else if n = JStr ''not-found'' then NotFound
      else if n = JStr ''already-exists'' then Conflict
      else if n = JStr ''method-not-allowed'' then MethodNotAllowed
      else if n = JStr ''bad-request'' then BadRequest
      else if n = JStr ''too-many-requests'' then TooManyRequests
      else if n = JStr ''payload-too-large'' then PayloadTooLarge
      else if n = JStr ''internal-error'' then InternalError
      else if n = JStr ''not-implemented'' then NotImplemented
      else if n = JStr ''service-unavailable'' then ServiceUnavailable
      else if n = JStr ''aggregated'' then Aggregated
      else ApiError)"

text \<open>
  \<open>parse(data, statusCode, origin)\<close>. Reading \<open>data.message\<close> throws when the payload is
  \<open>undefined\<close> or \<open>null\<close>; a payload that is not a mapping is outside the contract of the
  merge. \<open>options.errors?.map(...)\<close> is \<open>undefined\<close> for a missing member, maps an array
  and throws on anything else, which has no method \<open>map\<close>. The callback reads
  \<open>error.stack\<close> before it calls \<open>parse\<close>, which throws on an element that is \<open>undefined\<close>
  or \<open>null\<close>. Every instance built in one call gets the same trace. That the recursion
  ends is proved after the definitions.
\<close>

function parse :: "string \<Rightarrow> jsval \<Rightarrow> jsval \<Rightarrow> jsval \<Rightarrow> api_error outcome"
  and parse_each :: "string \<Rightarrow> jsval list \<Rightarrow> jsval \<Rightarrow> jsval \<Rightarrow> jsval list outcome" where
  "parse trace data sc orig =
     (case data of
        JObj d \<Rightarrow>
          (let opts = merge [] [d, [(''message'', obj_get d ''message''), (''statusCode'', sc),
                                      (''origin'', orig)]];
               n = obj_get d ''name''
           in case (case obj_get opts ''errors'' of
                      JUndefined \<Rightarrow> Returns JUndefined
                    | JNull \<Rightarrow> Returns JUndefined
                    | JArr xs \<Rightarrow>
                        (case parse_each trace xs sc orig of
                           Returns ys \<Rightarrow> Returns (JArr ys)
                         | Throws x \<Rightarrow> Throws x
                         | Unmodelled \<Rightarrow> Unmodelled)
                    | _ \<Rightarrow> Throws HostTypeError) of
                Returns es \<Rightarrow>
                  construct (type_of_name (if truthy n then n else JStr ''bad-request'')) trace
                    (JObj (obj_set ''errors'' es opts)) JUndefined
              | Throws x \<Rightarrow> Throws x
              | Unmodelled \<Rightarrow> Unmodelled)
      | JUndefined \<Rightarrow> Throws HostTypeError
      | JNull \<Rightarrow> Throws HostTypeError
      | _ \<Rightarrow> Unmodelled)"
| "parse_each trace [] sc orig = Returns []"
| "parse_each trace (x # xs) sc orig =
     (if nullish x then Throws HostTypeError
      else (case parse trace x sc orig of
              Returns e \<Rightarrow>
                (case parse_each trace xs sc orig of
                   Returns es \<Rightarrow> Returns (JErr e # es)
                 | Throws y \<Rightarrow> Throws y
                 | Unmodelled \<Rightarrow> Unmodelled)
            | Throws y \<Rightarrow> Throws y
            | Unmodelled \<Rightarrow> Unmodelled))"
  by pat_completeness auto

section \<open>Accessors and serialisation\<close>

text \<open>
  The getter \<open>actual\<close>:
  \<open>(this._underlying || {}).underlying || this._underlying || this\<close>.
\<close>

definition actual :: "api_error \<Rightarrow> jsval" where
  "actual e =
     (let u = underlying e;
          uu = read_prop (if truthy u then u else JObj []) ''underlying''
      in if truthy uu then uu else if truthy u then u else JErr e)"

text \<open>
  The getter \<open>stacked\<close>. The function \<open>stk\<close> is the external package \<open>@trenskow/stack\<close>,
  which turns a captured trace into a structured one; it is a parameter of the model.
\<close>

definition stacked :: "(jsval \<Rightarrow> jsval) \<Rightarrow> api_error \<Rightarrow> jsval" where
  "stacked stk e =
     (if truthy (read_prop (actual e) ''_stacked'') then read_prop (actual e) ''_stacked''
      else stk (read_prop (actual e) ''stack''))"

text \<open>
  \<open>this.name ? this.name.split(/(?=[A-Z])/).join('-').toLowerCase() : undefined\<close>: only a
  string has \<open>split\<close>.
\<close>

definition json_name :: "jsval \<Rightarrow> jsval outcome" where
  "json_name n =
     (if truthy n then (case n of JStr s \<Rightarrow> Returns (JStr (kebab s)) | _ \<Rightarrow> Throws HostTypeError)
      else Returns JUndefined)"

text \<open>
  \<open>v > 0\<close> for the value of a member \<open>length\<close>; the coercion of a string or an object to
  a number is not modelled.
\<close>

definition positive :: "jsval \<Rightarrow> bool outcome" where
  "positive v =
     (case v of JUndefined \<Rightarrow> Returns False | JNull \<Rightarrow> Returns False | JBool b \<Rightarrow> Returns b
      | JNum n \<Rightarrow> Returns (0 < n) | _ \<Rightarrow> Unmodelled)"

text \<open>
  \<open>xs.join('.')\<close>: \<open>undefined\<close> and \<open>null\<close> count as the empty string, a string as itself;
  the coercion of any other element to a string is not modelled.
\<close>

fun join_elems :: "jsval list \<Rightarrow> string list outcome" where
  "join_elems [] = Returns []"
| "join_elems (x # xs) =
     (case (case x of JStr s \<Rightarrow> Returns s | JUndefined \<Rightarrow> Returns [] | JNull \<Rightarrow> Returns []
            | _ \<Rightarrow> Unmodelled) of
        Returns s \<Rightarrow>
          (case join_elems xs of Returns ws \<Rightarrow> Returns (s # ws) | Throws y \<Rightarrow> Throws y
           | Unmodelled \<Rightarrow> Unmodelled)
      | Throws y \<Rightarrow> Throws y
      | Unmodelled \<Rightarrow> Unmodelled)"

text \<open>
  \<open>this.keyPath ? (this.keyPath.length > 0 ? this.keyPath.join('.') : undefined) : undefined\<close>:
  only an array has \<open>join\<close>.
\<close>

definition json_keyPath :: "jsval \<Rightarrow> jsval outcome" where
  "json_keyPath kp =
     (if truthy kp then
        (case positive (read_prop kp ''length'') of
           Returns True \<Rightarrow>
             (case kp of
                JArr xs \<Rightarrow>
                  (case join_elems xs of Returns ws \<Rightarrow> Returns (JStr (join_with ''.'' ws))
                   | Throws y \<Rightarrow> Throws y | Unmodelled \<Rightarrow> Unmodelled)
              | _ \<Rightarrow> Throws HostTypeError)
         | Returns False \<Rightarrow> Returns JUndefined
         | Throws y \<Rightarrow> Throws y
         | Unmodelled \<Rightarrow> Unmodelled)
      else Returns JUndefined)"

text \<open>
  \<open>toJSON(options = {})\<close> of the base class: an object literal of five members, evaluated
  in this order.
\<close>

definition default_config :: "jsval \<Rightarrow> jsval" where
  "default_config cfg = (if cfg = JUndefined then JObj [] else cfg)"

definition toJSON_base :: "(jsval \<Rightarrow> jsval) \<Rightarrow> jsval \<Rightarrow> api_error \<Rightarrow> (string \<times> jsval) list outcome" where
  "toJSON_base stk cfg e =
     (case json_name (name e) of
        Returns n \<Rightarrow>
          (case json_keyPath (keyPath e) of
             Returns kp \<Rightarrow>
               (case get_prop cfg ''includeStack'' of
                  Returns inc \<Rightarrow>
                    Returns [(''name'', n), (''message'', message e), (''entity'', entity e),
                             (''keyPath'', kp),
                             (''stack'', if truthy inc then stacked stk e else JUndefined)]
                | Throws y \<Rightarrow> Throws y
                | Unmodelled \<Rightarrow> Unmodelled)
           | Throws y \<Rightarrow> Throws y
           | Unmodelled \<Rightarrow> Unmodelled)
      | Throws y \<Rightarrow> Throws y
      | Unmodelled \<Rightarrow> Unmodelled)"

text \<open>
  \<open>toJSON\<close> as the instance's class has it. \<open>Aggregated\<close> overrides it:
  \<open>merge({}, super.toJSON(options), {errors: this._errors.map((error) => error.toJSON(options))})\<close>.
  Only an array has \<open>map\<close>, and only an instance has \<open>toJSON\<close>.
\<close>

fun toJSON :: "(jsval \<Rightarrow> jsval) \<Rightarrow> jsval \<Rightarrow> api_error \<Rightarrow> jsval outcome"
and toJSON_each :: "(jsval \<Rightarrow> jsval) \<Rightarrow> jsval \<Rightarrow> jsval list \<Rightarrow> jsval list outcome" where
  "toJSON stk cfg (Instance c m n en sc sd ops kp og un st er) =
     (case toJSON_base stk (default_config cfg) (Instance c m n en sc sd ops kp og un st er) of
        Returns base \<Rightarrow>
          (if c = Aggregated then
             (case er of
                JArr xs \<Rightarrow>
                  (case toJSON_each stk (default_config cfg) xs of
                     Returns js \<Rightarrow> Returns (JObj (merge [] [base, [(''errors'', JArr js)]]))
                   | Throws y \<Rightarrow> Throws y
                   | Unmodelled \<Rightarrow> Unmodelled)
              | _ \<Rightarrow> Throws HostTypeError)
           else Returns (JObj base))
      | Throws y \<Rightarrow> Throws y
      | Unmodelled \<Rightarrow> Unmodelled)"
| "toJSON_each stk cfg [] = Returns []"
| "toJSON_each stk cfg (x # xs) =
     (case x of
        JErr child \<Rightarrow>
          (case toJSON stk cfg child of
             Returns j \<Rightarrow>
               (case toJSON_each stk cfg xs of
                  Returns js \<Rightarrow> Returns (j # js)
                | Throws y \<Rightarrow> Throws y
                | Unmodelled \<Rightarrow> Unmodelled)
           | Throws y \<Rightarrow> Throws y
           | Unmodelled \<Rightarrow> Unmodelled)
      | _ \<Rightarrow> Throws HostTypeError)"

section \<open>The collection of an aggregated error\<close>

text \<open>
  \<open>_check(errors)\<close>. The callback of \<open>every\<close> walks the prototype chain of an element
  and looks for a constructor called \<open>ApiError\<close>: it finds one for an instance of the
  program's classes and none for any other value of the model; \<open>Object.getPrototypeOf\<close>
  throws on \<open>undefined\<close> and \<open>null\<close>. \<open>every\<close> stops at the first element that fails.
\<close>

fun every_ApiError :: "jsval list \<Rightarrow> bool outcome" where
  "every_ApiError [] = Returns True"
| "every_ApiError (x # xs) =
     (if nullish x then Throws HostTypeError
      else (case x of JErr e \<Rightarrow> every_ApiError xs | _ \<Rightarrow> Returns False))"

definition check :: "jsval \<Rightarrow> jsval outcome" where
  "check v =
     (case v of
        JArr xs \<Rightarrow>
          (case every_ApiError xs of
             Returns True \<Rightarrow> Returns v
           | Returns False \<Rightarrow> Throws (TypeError ''Error must an array of type `ApiError`.'')
           | Throws y \<Rightarrow> Throws y
           | Unmodelled \<Rightarrow> Unmodelled)
      | _ \<Rightarrow> Throws (TypeError ''Error must an array of type `ApiError`.''))"

text \<open>
  The two methods that change an instance return the instance as it is after the call,
  together with the way the call ended. They belong to \<open>Aggregated\<close>.

  \<open>add(error)\<close>: \<open>this._errors = this._errors.concat(this._check(Array.isArray(error) ? error : [error]))\<close>.
  The stored value is an array unless the constructor was given something else; a
  string has a \<open>concat\<close> of its own, which coerces the argument to a string (not
  modelled), and no other value has one (\<open>concat_js a b\<close> is \<open>a.concat(b)\<close>).
\<close>

definition concat_js :: "jsval \<Rightarrow> jsval \<Rightarrow> jsval outcome" where
  "concat_js a b =
     (case a of
        JArr xs \<Rightarrow> Returns (JArr (xs @ (case b of JArr ys \<Rightarrow> ys | _ \<Rightarrow> [b])))
      | JStr s \<Rightarrow> Unmodelled
      | _ \<Rightarrow> Throws HostTypeError)"

definition add :: "api_error \<Rightarrow> jsval \<Rightarrow> api_error \<times> unit outcome" where
  "add e v =
     (if cls e \<noteq> Aggregated \<or> nullish (errors e) then (e, Throws HostTypeError)
      else (case check (case v of JArr xs \<Rightarrow> v | _ \<Rightarrow> JArr [v]) of
              Returns a \<Rightarrow>
                (case concat_js (errors e) a of
                   Returns r \<Rightarrow> (with_errors e r, Returns ())
                 | Throws y \<Rightarrow> (e, Throws y)
                 | Unmodelled \<Rightarrow> (e, Unmodelled))
            | Throws y \<Rightarrow> (e, Throws y)
            | Unmodelled \<Rightarrow> (e, Unmodelled)))"

text \<open>The setter of \<open>errors\<close>: \<open>this._errors = this._check(errors)\<close>.\<close>

definition set_errors :: "api_error \<Rightarrow> jsval \<Rightarrow> api_error \<times> unit outcome" where
  "set_errors e v =
     (if cls e \<noteq> Aggregated then (e, Unmodelled)
      else (case check v of
              Returns a \<Rightarrow> (with_errors e a, Returns ())
            | Throws y \<Rightarrow> (e, Throws y)
            | Unmodelled \<Rightarrow> (e, Unmodelled)))"

section \<open>Chains of underlying errors\<close>

text \<open>
  The root of the chain of underlying errors, in the words of the specification: the
  first instance reached by following \<open>underlying\<close> that has no underlying instance
  itself. \<open>links\<close> counts the instances below an instance.
\<close>

fun root :: "api_error \<Rightarrow> api_error" where
  "root (Instance c m n en sc sd ops kp og un st er) =
     (case un of JErr u \<Rightarrow> root u | _ \<Rightarrow> Instance c m n en sc sd ops kp og un st er)"

fun links :: "api_error \<Rightarrow> nat" where
  "links (Instance c m n en sc sd ops kp og un st er) =
     (case un of JErr u \<Rightarrow> Suc (links u) | _ \<Rightarrow> 0)"

section \<open>Well-formed mappings\<close>

text \<open>
  A plain object of the host has one value for a key. An association list stands for
  one when its keys are distinct, in the mapping itself and in every mapping nested in
  it. Arrays and instances pass through the merge as they are, so what they hold does
  not matter here.
\<close>

fun well_formed :: "jsval \<Rightarrow> bool"
and well_formed_members :: "(string \<times> jsval) list \<Rightarrow> bool" where
  "well_formed (JObj kvs) = (distinct (map fst kvs) \<and> well_formed_members kvs)"
| "well_formed v = True"
| "well_formed_members [] = True"
| "well_formed_members ((k, v) # kvs) = (well_formed v \<and> well_formed_members kvs)"

section \<open>Example values\<close>

text \<open>
  The values the examples further down are about. Each of the instances is what the
  constructor returns for the call given with it.
\<close>

text \<open>
  A chain of four instances: \<open>d = new ApiError('d')\<close>, and \<open>new ApiError(m, {underlying: x})\<close>
  for \<open>c\<close> around \<open>d\<close>, \<open>b\<close> around \<open>c\<close> and \<open>a\<close> around \<open>b\<close>.
\<close>

definition chain_d :: api_error where
  "chain_d = Instance ApiError (JStr ''d'') JUndefined JUndefined (JNum 500) JUndefined []
     JUndefined JUndefined JUndefined (JStr ''Error'') JUndefined"

definition chain_c :: api_error where
  "chain_c = Instance ApiError (JStr ''c'') JUndefined JUndefined (JNum 500) JUndefined
     [(''underlying'', JErr chain_d)] JUndefined JUndefined (JErr chain_d) (JStr ''Error'')
     JUndefined"

definition chain_b :: api_error where
  "chain_b = Instance ApiError (JStr ''b'') JUndefined JUndefined (JNum 500) JUndefined
     [(''underlying'', JErr chain_c)] JUndefined JUndefined (JErr chain_c) (JStr ''Error'')
     JUndefined"

definition chain_a :: api_error where
  "chain_a = Instance ApiError (JStr ''a'') JUndefined JUndefined (JNum 500) JUndefined
     [(''underlying'', JErr chain_b)] JUndefined JUndefined (JErr chain_b) (JStr ''Error'')
     JUndefined"

text \<open>\<open>new Aggregated()\<close>\<close>

definition empty_aggregate :: api_error where
  "empty_aggregate = Instance Aggregated (JStr ''Multiple errors occurred.'')
     (JStr ''aggregated'') JUndefined (JNum 400) JUndefined [] JUndefined JUndefined JUndefined
     (JStr ''Error'') (JArr [])"

text \<open>
  A stand-in for the external stack package in examples: the structured trace is one
  frame holding the captured trace.
\<close>

definition frames :: "jsval \<Rightarrow> jsval" where
  "frames s = JArr [s]"

text \<open>
  \<open>new NotFound('gone', {entity: 'user', keyPath: 'a.b'})\<close>, and the configuration
  \<open>{includeStack: true}\<close>.
\<close>

definition gone_user :: api_error where
  "gone_user = Instance NotFound (JStr ''gone'') (JStr ''not-found'') (JStr ''user'') (JNum 404)
     JUndefined [(''keyPath'', JArr [JStr ''a'', JStr ''b''])] (JArr [JStr ''a'', JStr ''b''])
     JUndefined JUndefined (JStr ''Error'') JUndefined"

definition with_stack :: jsval where
  "with_stack = JObj [(''includeStack'', JBool True)]"

text \<open>\<open>new Aggregated('several', {errors: [gone_user, chain_d]})\<close>\<close>

definition several :: api_error where
  "several = Instance Aggregated (JStr ''several'') (JStr ''aggregated'') JUndefined (JNum 400)
     JUndefined [(''errors'', JArr [JErr gone_user, JErr chain_d])] JUndefined JUndefined
     JUndefined (JStr ''Error'') (JArr [JErr gone_user, JErr chain_d])"

section \<open>Termination of the reconstruction\<close>

text \<open>
  \<open>parse\<close> calls itself on the elements of the payload's member \<open>errors\<close>, which it reads
  from the merged options. The recursion ends because an array found there is an array
  of the payload: the merge builds mappings, never arrays.
\<close>

lemma merge2_arr: "merge2 x v = JArr xs \<Longrightarrow> v = JArr xs"
  by (cases x; cases v) auto

lemma obj_get_obj_set: "obj_get (obj_set k v a) k' = (if k' = k then v else obj_get a k')"
  by (induction a) auto

lemma merge_obj_arr:
  "obj_get (merge_obj a b) k = JArr xs \<Longrightarrow> obj_get a k = JArr xs \<or> (k, JArr xs) \<in> set b"
proof (induction b arbitrary: a)
  case Nil
  then show ?case by simp
next
  case (Cons kv b)
  obtain k' v where kv: "kv = (k', v)" by (cases kv)
  let ?a' = "obj_set k' (if obj_has a k' then merge2 (obj_get a k') v else v) a"
  from Cons.prems kv have "obj_get (merge_obj ?a' b) k = JArr xs" by simp
  from Cons.IH[OF this] show ?case
  proof
    assume h: "obj_get ?a' k = JArr xs"
    show ?thesis
    proof (cases "k = k'")
      case True
      with h have "(if obj_has a k' then merge2 (obj_get a k') v else v) = JArr xs"
        by (simp add: obj_get_obj_set)
      then have "v = JArr xs" by (auto split: if_splits dest: merge2_arr)
      with True kv show ?thesis by simp
    next
      case False
      with h show ?thesis by (simp add: obj_get_obj_set)
    qed
  next
    assume "(k, JArr xs) \<in> set b"
    then show ?thesis by simp
  qed
qed

lemma size_member: "(k, v) \<in> set kvs \<Longrightarrow> size v < size (JObj kvs)"
  by (induction kvs) auto

lemma merged_errors_size:
  assumes "obj_get (merge [] [d, [(''message'', m), (''statusCode'', sc), (''origin'', og)]])
             ''errors'' = JArr xs"
  shows "size_list size xs < size (JObj d)"
proof -
  from assms have "obj_get (merge_obj (merge_obj [] d)
      [(''message'', m), (''statusCode'', sc), (''origin'', og)]) ''errors'' = JArr xs"
    by (simp add: merge_def)
  from merge_obj_arr[OF this] have "obj_get (merge_obj [] d) ''errors'' = JArr xs" by auto
  from merge_obj_arr[OF this] have "(''errors'', JArr xs) \<in> set d" by auto
  from size_member[OF this] show ?thesis by simp
qed

termination parse
  apply (relation "measure (\<lambda>a. case a of Inl (t, d, s, g) \<Rightarrow> size d
                                        | Inr (t, xs, s, g) \<Rightarrow> size_list size xs)")
     apply simp
  subgoal premises prems for trace data sc orig d opts n xs
    using prems merged_errors_size by simp
   apply simp_all
  done

declare parse.simps(1) [simp del]

section \<open>Basic facts\<close>

lemma truthy_simps [simp]:
  "truthy (JObj kvs)" "truthy (JArr xs)" "truthy (JErr e)" "\<not> truthy JUndefined"
  "\<not> truthy JNull" "truthy (JStr s) = (s \<noteq> [])" "truthy (JNum n) = (n \<noteq> 0)"
  "truthy (JBool b) = b"
  by (simp_all add: truthy_def)

lemma correctArguments_obj [simp]: "correctArguments m (JObj kvs) = (m, JObj kvs)"
  by (simp add: correctArguments_def)

lemma merge2_simps [simp]:
  "merge2 x (JNum n) = JNum n" "merge2 x (JStr s) = JStr s"
  by (cases x; simp)+

lemma fixed_status_nonzero [simp]: "fixed_status c \<noteq> 0"
  by (cases c) simp_all

lemma ApiError_init_sel [simp]:
  "cls (ApiError_init c trace m o1) = c"
  "message (ApiError_init c trace m o1) = m"
  "name (ApiError_init c trace m o1) = obj_get o1 ''name''"
  "entity (ApiError_init c trace m o1) = obj_get o1 ''entity''"
  "statusCode (ApiError_init c trace m o1) =
     (if truthy (obj_get o1 ''statusCode'') then obj_get o1 ''statusCode'' else JNum 500)"
  "stacked_field (ApiError_init c trace m o1) = obj_get o1 ''stack''"
  "stack (ApiError_init c trace m o1) = JStr trace"
  "errors (ApiError_init c trace m o1) = JUndefined"
  by (simp_all add: ApiError_init_def Let_def)

lemma with_errors_sel [simp]:
  "cls (with_errors e v) = cls e" "message (with_errors e v) = message e"
  "name (with_errors e v) = name e" "entity (with_errors e v) = entity e"
  "statusCode (with_errors e v) = statusCode e"
  "stacked_field (with_errors e v) = stacked_field e"
  "options (with_errors e v) = options e" "keyPath (with_errors e v) = keyPath e"
  "origin (with_errors e v) = origin e" "underlying (with_errors e v) = underlying e"
  "stack (with_errors e v) = stack e" "errors (with_errors e v) = v"
  by (simp_all add: with_errors_def)

lemma ApiError_constructor_obj [simp]:
  "ApiError_constructor c trace m (JObj o1) = Returns (ApiError_init c trace m o1)"
  by (simp add: ApiError_constructor_def)

text \<open>What \<open>new C(a, b)\<close> returns when the corrected options are a mapping.\<close>

lemma construct_mapping:
  assumes "correctArguments a b = (m, JObj o1)"
  shows "construct c trace a b =
    Returns (if c = ApiError then ApiError_init c trace m o1
             else if c = Aggregated
               then with_errors (ApiError_init c trace
                      (if truthy m then m else JStr (default_message c))
                      (merge [] [o1, fixed_options c o1])) (initial_errors o1)
             else ApiError_init c trace (if truthy m then m else JStr (default_message c))
                    (merge [] [o1, fixed_options c o1]))"
  using assms by (simp add: construct_def subclass_constructor_def ApiError_constructor_def)

lemma merged_statusCode [simp]:
  "obj_get (merge [] [o1, fixed_options c o1]) ''statusCode'' = JNum (fixed_status c)"
  by (simp add: merge_def fixed_options_def obj_get_obj_set)

section \<open>The status code of a new instance\<close>

text \<open>
  Claim C3, as the code has it. The claim says that for every variant \<open>statusCode\<close> is the
  default of the variant when the options give none and the caller's value when they
  give one. In the code every subclass passes its own \<open>statusCode\<close> to the merge as the
  last source, so the status code of a subclass is its fixed one whatever the options
  say; only the base class takes the caller's \<open>statusCode\<close>, when it is truthy, and 500
  otherwise. Construction returns whenever the corrected options are a mapping.
\<close>

theorem statusCode_of_construct:
  assumes "snd (correctArguments a b) = JObj o1"
  shows "\<exists>e. construct c trace a b = Returns e \<and>
           statusCode e =
             (if c = ApiError
              then (if truthy (obj_get o1 ''statusCode'') then obj_get o1 ''statusCode''
                    else JNum 500)
              else JNum (fixed_status c))"
proof -
  obtain m where ca: "correctArguments a b = (m, JObj o1)"
    using assms by (cases "correctArguments a b") simp
  show ?thesis
    by (simp add: construct_mapping[OF ca])
qed

theorem statusCode_of_construct_witness:
  "\<exists>e. construct NotFound ''Error'' (JObj [(''statusCode'', JNum 410)]) JUndefined = Returns e \<and>
       statusCode e = JNum 404"
  using statusCode_of_construct[of "JObj [(''statusCode'', JNum 410)]" JUndefined
          "[(''statusCode'', JNum 410)]" NotFound "''Error''"]
  by (simp add: correctArguments_def is_object_def)

text \<open>
  \<open>new NotFound({statusCode: 410})\<close> has the status code 404, not the 410 of its options.
\<close>

theorem statusCode_option_counterexample:
  "construct NotFound ''Error'' (JObj [(''statusCode'', JNum 410)]) JUndefined =
     Returns (Instance NotFound (JStr ''Resource not found.'') (JStr ''not-found'') JUndefined
       (JNum 404) JUndefined [] JUndefined JUndefined JUndefined (JStr ''Error'') JUndefined)"
  by code_simp

section \<open>The name of a new instance\<close>

lemma merge2_not_obj: "(\<And>kvs. y \<noteq> JObj kvs) \<Longrightarrow> merge2 x y = y"
  by (cases x; cases y) auto

lemma merged_name:
  assumes "\<And>kvs. obj_get o1 ''name'' \<noteq> JObj kvs"
  shows "obj_get (merge [] [o1, fixed_options c o1]) ''name'' =
     (if honours_name c \<and> truthy (obj_get o1 ''name'') then obj_get o1 ''name''
      else JStr (fixed_name c))"
  using assms by (simp add: merge_def fixed_options_def obj_get_obj_set merge2_not_obj)

text \<open>
  Claim C9, as the code has it. Every variant built with no arguments has its fixed
  status code and its fixed name. With options, the status code stays the fixed one;
  \<open>NotAuthorized\<close>, \<open>PaymentRequired\<close> and \<open>Forbidden\<close> keep the fixed name whatever the
  options say; the other ten take the name of the options when it is truthy (any
  string but the empty one) and keep the fixed name when it is falsy. The name is
  taken not to be a mapping, which the merge would merge rather than replace.
\<close>

theorem name_and_status_of_variant:
  assumes "c \<noteq> ApiError" and "snd (correctArguments a b) = JObj o1"
    and "\<And>kvs. obj_get o1 ''name'' \<noteq> JObj kvs"
  shows "\<exists>e. construct c trace a b = Returns e \<and> statusCode e = JNum (fixed_status c) \<and>
           name e = (if honours_name c \<and> truthy (obj_get o1 ''name'') then obj_get o1 ''name''
                     else JStr (fixed_name c))"
proof -
  obtain m where ca: "correctArguments a b = (m, JObj o1)"
    using assms(2) by (cases "correctArguments a b") simp
  show ?thesis
    using assms(1) merged_name[OF assms(3), of c]
    by (cases "c = Aggregated") (simp_all add: construct_mapping[OF ca])
qed

theorem name_and_status_of_variant_witness:
  "(\<exists>e. construct Conflict ''Error'' JUndefined JUndefined = Returns e \<and>
        statusCode e = JNum 409 \<and> name e = JStr ''already-exists'') \<and>
   (\<exists>e. construct Conflict ''Error'' (JObj [(''name'', JStr ''custom'')]) JUndefined = Returns e \<and>
        statusCode e = JNum 409 \<and> name e = JStr ''custom'') \<and>
   (\<exists>e. construct Forbidden ''Error'' (JObj [(''name'', JStr ''custom'')]) JUndefined = Returns e \<and>
        statusCode e = JNum 403 \<and> name e = JStr ''forbidden'')"
  using name_and_status_of_variant[of Conflict JUndefined JUndefined "[]" "''Error''"]
    name_and_status_of_variant[of Conflict "JObj [(''name'', JStr ''custom'')]" JUndefined
      "[(''name'', JStr ''custom'')]" "''Error''"]
    name_and_status_of_variant[of Forbidden "JObj [(''name'', JStr ''custom'')]" JUndefined
      "[(''name'', JStr ''custom'')]" "''Error''"]
  by (simp add: correctArguments_def is_object_def honours_name_def)

text \<open>
  \<open>new NotFound({name: ''})\<close>: the name supplied is the empty string, and the instance
  keeps the fixed name.
\<close>

theorem empty_name_counterexample:
  "construct NotFound ''Error'' (JObj [(''name'', JStr '''')]) JUndefined =
     Returns (Instance NotFound (JStr ''Resource not found.'') (JStr ''not-found'') JUndefined
       (JNum 404) JUndefined [] JUndefined JUndefined JUndefined (JStr ''Error'') JUndefined)"
  by code_simp

section \<open>The default message\<close>

text \<open>
  Claim C10. For every variant, an empty string as the message gives the default
  message of the variant: as the first argument, whether the second argument is
  missing (or falsy) or a mapping, and as the member \<open>message\<close> of options passed alone.
\<close>

theorem default_message_for_empty_string:
  assumes "c \<noteq> ApiError"
  shows "(\<not> truthy b \<or> (\<exists>o1. b = JObj o1) \<longrightarrow>
            (\<exists>e. construct c trace (JStr []) b = Returns e \<and>
                 message e = JStr (default_message c))) \<and>
         (\<not> truthy b \<and> obj_get kvs ''message'' = JStr [] \<longrightarrow>
            (\<exists>e. construct c trace (JObj kvs) b = Returns e \<and>
                 message e = JStr (default_message c)))"
proof (intro conjI impI)
  assume "\<not> truthy b \<or> (\<exists>o1. b = JObj o1)"
  then obtain o1 where "correctArguments (JStr []) b = (JStr [], JObj o1)"
    by (auto simp: correctArguments_def is_object_def)
  from construct_mapping[OF this] assms
  show "\<exists>e. construct c trace (JStr []) b = Returns e \<and> message e = JStr (default_message c)"
    by simp
next
  assume "\<not> truthy b \<and> obj_get kvs ''message'' = JStr []"
  then have "correctArguments (JObj kvs) b = (JStr [], JObj kvs)"
    by (simp add: correctArguments_def is_object_def)
  from construct_mapping[OF this] assms
  show "\<exists>e. construct c trace (JObj kvs) b = Returns e \<and> message e = JStr (default_message c)"
    by simp
qed

theorem default_message_for_empty_string_witness:
  "(\<exists>e. construct NotFound ''Error'' (JStr []) JUndefined = Returns e \<and>
        message e = JStr ''Resource not found.'') \<and>
   (\<exists>e. construct NotFound ''Error'' (JStr []) (JObj [(''entity'', JStr ''user'')]) = Returns e \<and>
        message e = JStr ''Resource not found.'') \<and>
   (\<exists>e. construct BadRequest ''Error'' (JObj [(''message'', JStr [])]) JUndefined = Returns e \<and>
        message e = JStr ''Bad request'')"
  using default_message_for_empty_string[of NotFound JUndefined "''Error''" "[]"]
    default_message_for_empty_string[of NotFound "JObj [(''entity'', JStr ''user'')]" "''Error''" "[]"]
    default_message_for_empty_string[of BadRequest JUndefined "''Error''" "[(''message'', JStr [])]"]
  by simp

section \<open>The options kept by an instance\<close>

lemma keys_obj_set:
  "obj_keys (obj_set k v kvs) = (if obj_has kvs k then obj_keys kvs else obj_keys kvs @ [k])"
  by (induction k v kvs rule: obj_set.induct) (auto simp: obj_has_def obj_keys_def)

lemma obj_has_set [simp]: "obj_has (obj_set k v kvs) k' = (k' = k \<or> obj_has kvs k')"
  by (auto simp: obj_has_def keys_obj_set)

lemma obj_has_del [simp]: "obj_has (obj_del k kvs) k' = (k' \<noteq> k \<and> obj_has kvs k')"
  by (auto simp: obj_has_def obj_del_def obj_keys_def)

lemma obj_has_Nil [simp]: "\<not> obj_has [] k"
  by (simp add: obj_has_def obj_keys_def)

lemma obj_has_Cons [simp]: "obj_has ((k, v) # kvs) k' = (k' = k \<or> obj_has kvs k')"
  by (auto simp: obj_has_def obj_keys_def)

lemma obj_get_defined: "obj_get kvs k \<noteq> JUndefined \<Longrightarrow> obj_has kvs k"
  by (induction kvs k rule: obj_get.induct) (auto split: if_splits)

lemma obj_has_merge_obj [simp]: "obj_has (merge_obj a b) k = (obj_has a k \<or> obj_has b k)"
proof (induction b arbitrary: a)
  case Nil
  then show ?case by simp
next
  case (Cons kv b)
  then show ?case by (cases kv) auto
qed

lemma obj_has_merged:
  "obj_has (merge [] [o1, fixed_options c o1]) k =
     (obj_has o1 k \<or> k = ''name'' \<or> k = ''statusCode'')"
  by (auto simp: merge_def fixed_options_def)

lemma options_ApiError_init:
  "obj_has (options (ApiError_init c trace m o1)) k =
     (obj_has o1 k \<and> k \<notin> {''message'', ''name'', ''entity'', ''statusCode'', ''stack''})"
proof -
  define o2 where "o2 = obj_del ''stack'' (obj_del ''statusCode'' (obj_del ''entity''
               (obj_del ''name'' (obj_del ''message'' o1))))"
  have o2: "obj_has o2 k =
     (obj_has o1 k \<and> k \<notin> {''message'', ''name'', ''entity'', ''statusCode'', ''stack''})"
    unfolding o2_def by auto
  have opts: "options (ApiError_init c trace m o1) =
      (case obj_get o2 ''keyPath'' of
         JStr s \<Rightarrow> obj_set ''keyPath'' (JArr (map JStr (split_on CHR ''.'' s))) o2
       | _ \<Rightarrow> o2)"
    unfolding o2_def by (simp add: ApiError_init_def Let_def)
  show ?thesis
  proof (cases "\<exists>s. obj_get o2 ''keyPath'' = JStr s")
    case True
    then obtain s where s: "obj_get o2 ''keyPath'' = JStr s" by blast
    then have "obj_has o2 ''keyPath''" by (intro obj_get_defined) simp
    have "options (ApiError_init c trace m o1) =
        obj_set ''keyPath'' (JArr (map JStr (split_on CHR ''.'' s))) o2"
      unfolding opts s by simp
    then have "obj_has (options (ApiError_init c trace m o1)) k =
        (k = ''keyPath'' \<or> obj_has o2 k)"
      by simp
    also have "\<dots> = obj_has o2 k"
      using \<open>obj_has o2 ''keyPath''\<close> by blast
    finally show ?thesis
      unfolding o2 .
  next
    case False
    then have "options (ApiError_init c trace m o1) = o2"
      unfolding opts by (cases "obj_get o2 ''keyPath''") simp_all
    with o2 show ?thesis by simp
  qed
qed

text \<open>
  Claim C4, as the code has it. The base constructor deletes \<open>message\<close>, \<open>name\<close>, \<open>entity\<close>,
  \<open>statusCode\<close> and \<open>stack\<close> from the options, so none of these five is a key of the
  mapping the getter \<open>options\<close> returns. It does not delete \<open>keyPath\<close>, \<open>origin\<close> and
  \<open>underlying\<close>: each of them is a key of that mapping exactly when it was a key of the
  options supplied.
\<close>

theorem options_after_construction:
  assumes "snd (correctArguments a b) = JObj o1"
  shows "\<exists>e. construct c trace a b = Returns e \<and>
     (\<forall>k \<in> {''message'', ''name'', ''entity'', ''statusCode'', ''stack''}.
        \<not> obj_has (options e) k) \<and>
     (\<forall>k \<in> {''keyPath'', ''origin'', ''underlying''}.
        obj_has (options e) k = obj_has o1 k)"
proof -
  obtain m where ca: "correctArguments a b = (m, JObj o1)"
    using assms by (cases "correctArguments a b") simp
  show ?thesis
    by (simp add: construct_mapping[OF ca] options_ApiError_init obj_has_merged)
qed

theorem options_after_construction_witness:
  "\<exists>e. construct ApiError ''Error'' (JStr ''failed'')
          (JObj [(''name'', JStr ''custom''), (''origin'', JStr ''billing''),
                 (''keyPath'', JStr ''a.b'')]) = Returns e \<and>
       (\<forall>k \<in> {''message'', ''name'', ''entity'', ''statusCode'', ''stack''}.
          \<not> obj_has (options e) k) \<and>
       obj_has (options e) ''keyPath'' \<and> obj_has (options e) ''origin'' \<and>
       \<not> obj_has (options e) ''underlying''"
  using options_after_construction[of "JStr ''failed''"
      "JObj [(''name'', JStr ''custom''), (''origin'', JStr ''billing''), (''keyPath'', JStr ''a.b'')]"
      "[(''name'', JStr ''custom''), (''origin'', JStr ''billing''), (''keyPath'', JStr ''a.b'')]"
      ApiError "''Error''"]
  by simp

text \<open>
  \<open>new ApiError('failed', {name: 'custom', origin: 'billing', keyPath: 'a.b', underlying: 7})\<close>:
  the options of the instance still hold \<open>origin\<close>, \<open>keyPath\<close> (split) and \<open>underlying\<close>.
\<close>

theorem reserved_keys_counterexample:
  "construct ApiError ''Error'' (JStr ''failed'')
     (JObj [(''name'', JStr ''custom''), (''origin'', JStr ''billing''),
            (''keyPath'', JStr ''a.b''), (''underlying'', JNum 7)]) =
   Returns (Instance ApiError (JStr ''failed'') (JStr ''custom'') JUndefined (JNum 500) JUndefined
     [(''origin'', JStr ''billing''), (''keyPath'', JArr [JStr ''a'', JStr ''b'']),
      (''underlying'', JNum 7)]
     (JArr [JStr ''a'', JStr ''b'']) (JStr ''billing'') (JNum 7) (JStr ''Error'') JUndefined)"
  by code_simp

section \<open>The root of a chain\<close>

lemma root_unfold: "root e = (case underlying e of JErr u \<Rightarrow> root u | _ \<Rightarrow> e)"
  by (cases e) (simp split: jsval.splits)

lemma links_unfold: "links e = (case underlying e of JErr u \<Rightarrow> Suc (links u) | _ \<Rightarrow> 0)"
  by (cases e) simp

lemma inst_prop_simps [simp]:
  "inst_prop e ''underlying'' = underlying e"
  "inst_prop e ''_stacked'' = stacked_field e"
  "inst_prop e ''stack'' = stack e"
  "inst_prop e ''errors'' = (if cls e = Aggregated then errors e else JUndefined)"
  "inst_prop e ''includeStack'' = JUndefined"
  by (simp_all add: inst_prop_def)

lemma actual_none: "\<not> truthy (underlying e) \<Longrightarrow> actual e = JErr e"
  by (simp add: actual_def Let_def)

lemma actual_one:
  "underlying e = JErr b \<Longrightarrow> \<not> truthy (underlying b) \<Longrightarrow> actual e = JErr b"
  by (simp add: actual_def Let_def)

text \<open>Two links down, whatever lies below.\<close>

lemma actual_two: "underlying e = JErr b \<Longrightarrow> underlying b = JErr c \<Longrightarrow> actual e = JErr c"
  by (simp add: actual_def Let_def)

text \<open>
  Claim C1, as the code has it. \<open>actual\<close> looks at the underlying error and at that
  one's underlying error, and no further. So it is the root of the chain when the chain
  has at most two links below the instance (and the root has no underlying value);
  in a longer chain it is the second instance below, not the root.
\<close>

theorem actual_is_root_within_two_links:
  assumes "links e \<le> 2" and "\<not> truthy (underlying (root e))"
  shows "actual e = JErr (root e)"
proof (cases "\<exists>b. underlying e = JErr b")
  case False
  then have r: "root e = e"
    by (subst root_unfold) (auto split: jsval.splits)
  with assms(2) show ?thesis by (simp add: actual_none)
next
  case True
  then obtain b where b: "underlying e = JErr b" by blast
  then have rb: "root e = root b" by (subst root_unfold) simp
  from b assms(1) have lb: "links b \<le> 1" by (subst (asm) links_unfold) simp
  show ?thesis
  proof (cases "\<exists>c. underlying b = JErr c")
    case False
    then have "root b = b"
      by (subst root_unfold) (auto split: jsval.splits)
    with rb assms(2) b show ?thesis by (simp add: actual_one)
  next
    case True
    then obtain c where c: "underlying b = JErr c" by blast
    with lb have "links c = 0" by (subst (asm) links_unfold) simp
    then have "\<not> (\<exists>d. underlying c = JErr d)"
      by (subst (asm) links_unfold) (auto split: jsval.splits)
    then have "root c = c"
      by (subst root_unfold) (auto split: jsval.splits)
    moreover from c have "root b = root c" by (subst root_unfold) simp
    ultimately show ?thesis using rb actual_two[OF b c] by simp
  qed
qed

theorem actual_is_root_within_two_links_witness:
  "links chain_b \<le> 2 \<and> \<not> truthy (underlying (root chain_b)) \<and> actual chain_b = JErr chain_d \<and>
   root chain_b = chain_d"
proof -
  have l: "links chain_b \<le> 2" by code_simp
  have u: "\<not> truthy (underlying (root chain_b))" by code_simp
  have r: "root chain_b = chain_d" by code_simp
  from actual_is_root_within_two_links[OF l u] l u r show ?thesis by simp
qed

text \<open>
  With three links below \<open>a\<close>, \<open>a.actual\<close> is \<open>c\<close>, and the root of the chain is \<open>d\<close>.
\<close>

theorem actual_not_root_counterexample:
  "construct ApiError ''Error'' (JStr ''d'') JUndefined = Returns chain_d \<and>
   construct ApiError ''Error'' (JStr ''c'') (JObj [(''underlying'', JErr chain_d)]) =
     Returns chain_c \<and>
   construct ApiError ''Error'' (JStr ''b'') (JObj [(''underlying'', JErr chain_c)]) =
     Returns chain_b \<and>
   construct ApiError ''Error'' (JStr ''a'') (JObj [(''underlying'', JErr chain_b)]) =
     Returns chain_a \<and>
   actual chain_a = JErr chain_c \<and> root chain_a = chain_d \<and>
   actual chain_a \<noteq> JErr (root chain_a)"
  by code_simp

section \<open>Validation of the collection\<close>

lemma every_ApiError_cases:
  "every_ApiError xs = Returns True \<or> every_ApiError xs = Returns False \<or>
   every_ApiError xs = Throws HostTypeError"
  by (induction xs rule: every_ApiError.induct) (auto split: jsval.splits)

lemma every_ApiError_True:
  "every_ApiError xs = Returns True \<longleftrightarrow> (\<forall>x \<in> set xs. \<exists>e. x = JErr e)"
  by (induction xs rule: every_ApiError.induct) (auto simp: nullish_def split: jsval.splits)

lemma check_returns:
  "check v = Returns r \<longleftrightarrow> r = v \<and> (\<exists>xs. v = JArr xs \<and> (\<forall>x \<in> set xs. \<exists>e. x = JErr e))"
proof (cases v)
  case (JArr xs)
  from every_ApiError_cases[of xs] every_ApiError_True[of xs] JArr show ?thesis
    by (auto simp: check_def)
qed (simp_all add: check_def)

lemma check_throws_otherwise:
  "\<not> (\<exists>xs. v = JArr xs \<and> (\<forall>x \<in> set xs. \<exists>e. x = JErr e)) \<Longrightarrow> \<exists>x. check v = Throws x"
proof (cases v)
  case (JArr xs)
  assume "\<not> (\<exists>xs. v = JArr xs \<and> (\<forall>x \<in> set xs. \<exists>e. x = JErr e))"
  with JArr every_ApiError_True[of xs] have "every_ApiError xs \<noteq> Returns True" by simp
  with every_ApiError_cases[of xs] JArr show ?thesis
    by (auto simp: check_def)
qed (simp_all add: check_def)

lemma add_failure: "snd (add e w) = Throws x \<Longrightarrow> fst (add e w) = e"
  by (auto simp: add_def split: outcome.splits if_splits)

lemma set_errors_failure: "snd (set_errors e w) = Throws x \<Longrightarrow> fst (set_errors e w) = e"
  by (auto simp: set_errors_def split: outcome.splits if_splits)

text \<open>
  Claim C7. \<open>_check\<close> returns its argument unchanged when it is an array whose elements
  are all instances of the program's classes, and throws otherwise (every exception of
  the model is a \<open>TypeError\<close>: the program's own, or the engine's for an element that is
  \<open>undefined\<close> or \<open>null\<close>). A call of \<open>add\<close> or of the setter of \<open>errors\<close> that throws
  leaves the instance, and so its collection, as it was.
\<close>

theorem check_validates:
  "(if \<exists>xs. v = JArr xs \<and> (\<forall>x \<in> set xs. \<exists>e. x = JErr e)
    then check v = Returns v else (\<exists>x. check v = Throws x)) \<and>
   (\<forall>x. snd (add e w) = Throws x \<longrightarrow> fst (add e w) = e) \<and>
   (\<forall>x. snd (set_errors e w) = Throws x \<longrightarrow> fst (set_errors e w) = e)"
  using check_returns[of v v] check_throws_otherwise[of v] add_failure[of e w]
    set_errors_failure[of e w]
  by (simp split: if_splits)

theorem check_validates_witness:
  "check (JArr [JErr chain_d, JErr empty_aggregate]) =
     Returns (JArr [JErr chain_d, JErr empty_aggregate]) \<and>
   (\<exists>x. check (JArr [JErr chain_d, JNum 42]) = Throws x) \<and>
   snd (add empty_aggregate (JArr [JErr chain_d, JNum 42])) =
     Throws (TypeError ''Error must an array of type `ApiError`.'') \<and>
   fst (add empty_aggregate (JArr [JErr chain_d, JNum 42])) = empty_aggregate \<and>
   snd (set_errors empty_aggregate (JStr ''x'')) =
     Throws (TypeError ''Error must an array of type `ApiError`.'') \<and>
   fst (set_errors empty_aggregate (JStr ''x'')) = empty_aggregate"
proof -
  have a: "snd (add empty_aggregate (JArr [JErr chain_d, JNum 42])) =
      Throws (TypeError ''Error must an array of type `ApiError`.'')"
    by code_simp
  have s: "snd (set_errors empty_aggregate (JStr ''x'')) =
      Throws (TypeError ''Error must an array of type `ApiError`.'')"
    by code_simp
  from check_validates[of "JArr [JErr chain_d, JErr empty_aggregate]" empty_aggregate
      "JArr [JErr chain_d, JNum 42]"]
  have 1: "check (JArr [JErr chain_d, JErr empty_aggregate]) =
     Returns (JArr [JErr chain_d, JErr empty_aggregate])"
    and 2: "fst (add empty_aggregate (JArr [JErr chain_d, JNum 42])) = empty_aggregate"
    using a by simp_all
  from check_validates[of "JArr [JErr chain_d, JNum 42]" empty_aggregate "JStr ''x''"]
  have 3: "\<exists>x. check (JArr [JErr chain_d, JNum 42]) = Throws x"
    and 4: "fst (set_errors empty_aggregate (JStr ''x'')) = empty_aggregate"
    using s by simp_all
  from 1 2 3 4 a s show ?thesis by blast
qed

section \<open>The collection at construction\<close>

text \<open>
  Claim C2 at \<open>new Aggregated({errors: [42]})\<close>. The constructor stores the member \<open>errors\<close>
  of its options as it is: the instance is built, and its collection holds the number
  42, which \<open>_check\<close> rejects when it comes through \<open>add\<close> or the setter.
\<close>

theorem constructor_stores_unchecked_errors:
  "construct Aggregated ''Error'' (JObj [(''errors'', JArr [JNum 42])]) JUndefined =
     Returns (Instance Aggregated (JStr ''Multiple errors occurred.'') (JStr ''aggregated'')
       JUndefined (JNum 400) JUndefined [(''errors'', JArr [JNum 42])] JUndefined JUndefined
       JUndefined (JStr ''Error'') (JArr [JNum 42])) \<and>
   check (JArr [JNum 42]) = Throws (TypeError ''Error must an array of type `ApiError`.'') \<and>
   construct Aggregated ''Error'' JUndefined JUndefined = Returns empty_aggregate \<and>
   add empty_aggregate (JArr [JNum 42]) =
     (empty_aggregate, Throws (TypeError ''Error must an array of type `ApiError`.'')) \<and>
   set_errors empty_aggregate (JArr [JNum 42]) =
     (empty_aggregate, Throws (TypeError ''Error must an array of type `ApiError`.''))"
  by code_simp

theorem constructor_stores_unchecked_errors_witness:
  "\<exists>e. construct Aggregated ''Error'' (JObj [(''errors'', JArr [JNum 42])]) JUndefined =
         Returns e \<and>
       errors e = JArr [JNum 42] \<and> (\<exists>x. check (errors e) = Throws x)"
  using constructor_stores_unchecked_errors by simp

section \<open>Facts about the merge\<close>

lemma obj_set_new: "\<not> obj_has a k \<Longrightarrow> obj_set k v a = a @ [(k, v)]"
  by (induction k v a rule: obj_set.induct) auto

lemma obj_has_append [simp]: "obj_has (a @ b) k = (obj_has a k \<or> obj_has b k)"
  by (auto simp: obj_has_def obj_keys_def)

lemma merge_obj_fresh: "distinct (map fst (a @ b)) \<Longrightarrow> merge_obj a b = a @ b"
proof (induction b arbitrary: a)
  case Nil
  then show ?case by simp
next
  case (Cons kv b)
  obtain k v where kv: "kv = (k, v)" by (cases kv)
  from Cons.prems kv have nk: "\<not> obj_has a k" by (auto simp: obj_has_def obj_keys_def)
  from Cons.prems kv have "distinct (map fst ((a @ [(k, v)]) @ b))" by simp
  from Cons.IH[OF this] nk kv show ?case by (simp add: obj_set_new)
qed

lemma merge_obj_empty: "distinct (map fst b) \<Longrightarrow> merge_obj [] b = b"
  using merge_obj_fresh[of "[]" b] by simp

lemma obj_get_member: "distinct (map fst a) \<Longrightarrow> (k, v) \<in> set a \<Longrightarrow> obj_get a k = v"
  by (induction a) (auto simp: rev_image_eqI)

lemma obj_set_same: "obj_has a k \<Longrightarrow> obj_get a k = v \<Longrightarrow> obj_set k v a = a"
  by (induction k v a rule: obj_set.induct) auto

lemma merge_obj_same:
  assumes "distinct (map fst a)" and "set b \<subseteq> set a"
    and "\<And>k v. (k, v) \<in> set b \<Longrightarrow> merge2 v v = v"
  shows "merge_obj a b = a"
  using assms(2,3)
proof (induction b)
  case Nil
  then show ?case by simp
next
  case (Cons kv b)
  obtain k v where kv: "kv = (k, v)" by (cases kv)
  with Cons.prems(1) have mem: "(k, v) \<in> set a" by simp
  then have has: "obj_has a k" by (auto simp: obj_has_def obj_keys_def rev_image_eqI)
  from obj_get_member[OF assms(1) mem] have get: "obj_get a k = v" .
  from Cons.prems(2)[of k v] kv have "merge2 v v = v" by simp
  with has get have "obj_set k (if obj_has a k then merge2 (obj_get a k) v else v) a = a"
    by (simp add: obj_set_same)
  moreover have "merge_obj a b = a"
  proof (rule Cons.IH)
    from Cons.prems(1) show "set b \<subseteq> set a" by simp
    show "merge2 u u = u" if "(j, u) \<in> set b" for j u
      using Cons.prems(2)[of j u] that by simp
  qed
  ultimately show ?case using kv by simp
qed

lemma well_formed_member:
  "well_formed_members kvs \<Longrightarrow> (k, v) \<in> set kvs \<Longrightarrow> well_formed v"
  by (induction kvs) auto

lemma merge2_idem:
  "well_formed v \<Longrightarrow> merge2 v v = v"
proof (induction v rule: measure_induct_rule[where f = size])
  case (less v)
  show ?case
  proof (cases v)
    case (JObj kvs)
    with less.prems have d: "distinct (map fst kvs)" and w: "well_formed_members kvs"
      by simp_all
    have "merge2 u u = u" if "(k, u) \<in> set kvs" for k u
    proof -
      from size_member[OF that] JObj have "size u < size v" by simp
      moreover from well_formed_member[OF w that] have "well_formed u" .
      ultimately show ?thesis by (rule less.IH)
    qed
    from merge_obj_same[OF d subset_refl this] JObj show ?thesis by simp
  qed simp_all
qed

lemma well_formed_get: "well_formed (JObj kvs) \<Longrightarrow> well_formed (obj_get kvs k)"
proof -
  have "well_formed_members a \<Longrightarrow> well_formed (obj_get a k)" for a
    by (induction a k rule: obj_get.induct) auto
  then show "well_formed (JObj kvs) \<Longrightarrow> well_formed (obj_get kvs k)" by simp
qed

text \<open>The options \<open>parse\<close> builds from a well-formed payload.\<close>

lemma obj_get_merge_obj_other:
  "\<not> obj_has b k \<Longrightarrow> obj_get (merge_obj a b) k = obj_get a k"
proof (induction b arbitrary: a)
  case Nil
  then show ?case by simp
next
  case (Cons kv b)
  then show ?case by (cases kv) (auto simp: obj_get_obj_set)
qed

lemma parse_options:
  fixes d sc og
  defines "opts \<equiv> merge [] [d, [(''message'', obj_get d ''message''), (''statusCode'', sc),
                                  (''origin'', og)]]"
  assumes wf: "well_formed (JObj d)"
  shows "obj_get opts ''message'' = obj_get d ''message''"
    and "(\<And>kvs. sc \<noteq> JObj kvs) \<Longrightarrow> obj_get opts ''statusCode'' = sc"
    and "k \<notin> {''message'', ''statusCode'', ''origin''} \<Longrightarrow> obj_get opts k = obj_get d k"
proof -
  from wf have d: "merge_obj [] d = d" by (simp add: merge_obj_empty)
  have m: "merge2 (obj_get d ''message'') (obj_get d ''message'') = obj_get d ''message''"
    using well_formed_get[OF wf] by (rule merge2_idem)
  show "obj_get opts ''message'' = obj_get d ''message''"
    unfolding opts_def by (simp add: merge_def d obj_get_obj_set m)
  show "obj_get opts ''statusCode'' = sc" if "\<And>kvs. sc \<noteq> JObj kvs"
    unfolding opts_def using that by (simp add: merge_def d obj_get_obj_set merge2_not_obj)
  show "obj_get opts k = obj_get d k" if "k \<notin> {''message'', ''statusCode'', ''origin''}"
    unfolding opts_def using that by (simp add: merge_def d obj_get_obj_set)
qed

section \<open>Payloads with an unknown name\<close>

lemma construct_options_only:
  "construct c trace (JObj o1) JUndefined =
    Returns (if c = ApiError then ApiError_init c trace (obj_get o1 ''message'') o1
             else if c = Aggregated
               then with_errors (ApiError_init c trace
                      (if truthy (obj_get o1 ''message'') then obj_get o1 ''message''
                       else JStr (default_message c))
                      (merge [] [o1, fixed_options c o1])) (initial_errors o1)
             else ApiError_init c trace
                    (if truthy (obj_get o1 ''message'') then obj_get o1 ''message''
                     else JStr (default_message c))
                    (merge [] [o1, fixed_options c o1]))"
  by (rule construct_mapping) (simp add: correctArguments_def is_object_def)

text \<open>
  Claim C6, as the code has it. For a payload that is a mapping, whose name is truthy
  and not in the table, and a status code that is a number: \<open>parse\<close> returns whenever the
  payload has no member \<open>errors\<close> (or it is \<open>undefined\<close> or \<open>null\<close>), and whatever it
  returns is an instance of the base class with the message of the payload and the
  status code supplied, or 500 when the status code supplied is 0.
\<close>

theorem parse_unknown_name:
  assumes wf: "well_formed (JObj d)"
    and nm: "truthy (obj_get d ''name'')"
    and ty: "type_of_name (obj_get d ''name'') = ApiError"
  shows "(nullish (obj_get d ''errors'') \<longrightarrow>
            (\<exists>e. parse trace (JObj d) (JNum n) og = Returns e)) \<and>
         (\<forall>e. parse trace (JObj d) (JNum n) og = Returns e \<longrightarrow>
            cls e = ApiError \<and> message e = obj_get d ''message'' \<and>
            statusCode e = (if n = 0 then JNum 500 else JNum n))"
proof -
  define opts where "opts = merge [] [d, [(''message'', obj_get d ''message''),
    (''statusCode'', JNum n), (''origin'', og)]]"
  define r where "r = (case obj_get opts ''errors'' of
      JUndefined \<Rightarrow> Returns JUndefined
    | JNull \<Rightarrow> Returns JUndefined
    | JArr xs \<Rightarrow>
        (case parse_each trace xs (JNum n) og of
           Returns ys \<Rightarrow> Returns (JArr ys)
         | Throws x \<Rightarrow> Throws x
         | Unmodelled \<Rightarrow> Unmodelled)
    | _ \<Rightarrow> Throws HostTypeError)"
  have p: "parse trace (JObj d) (JNum n) og =
      (case r of
         Returns es \<Rightarrow> construct ApiError trace (JObj (obj_set ''errors'' es opts)) JUndefined
       | Throws x \<Rightarrow> Throws x
       | Unmodelled \<Rightarrow> Unmodelled)"
    unfolding r_def opts_def using nm ty
    by (subst parse.simps) (simp add: Let_def cong: outcome.case_cong)
  have m: "obj_get opts ''message'' = obj_get d ''message''"
    unfolding opts_def by (rule parse_options(1)[OF wf])
  have s: "obj_get opts ''statusCode'' = JNum n"
    unfolding opts_def by (rule parse_options(2)[OF wf]) simp
  have e: "obj_get opts ''errors'' = obj_get d ''errors''"
    unfolding opts_def by (rule parse_options(3)[OF wf]) simp
  have built: "cls e = ApiError \<and> message e = obj_get d ''message'' \<and>
      statusCode e = (if n = 0 then JNum 500 else JNum n)"
    if "construct ApiError trace (JObj (obj_set ''errors'' es opts)) JUndefined = Returns e"
    for es e
    using that m s by (auto simp: construct_options_only obj_get_obj_set)
  have 1: "\<exists>e. parse trace (JObj d) (JNum n) og = Returns e" if "nullish (obj_get d ''errors'')"
  proof -
    from that e have "r = Returns JUndefined"
      by (auto simp: r_def nullish_def)
    then show ?thesis by (simp add: p construct_options_only)
  qed
  have 2: "cls e = ApiError \<and> message e = obj_get d ''message'' \<and>
      statusCode e = (if n = 0 then JNum 500 else JNum n)"
    if "parse trace (JObj d) (JNum n) og = Returns e" for e
    using that built unfolding p by (cases r) simp_all
  from 1 2 show ?thesis by blast
qed

theorem parse_unknown_name_witness:
  "\<exists>e. parse ''Error'' (JObj [(''name'', JStr ''totally-unknown''), (''message'', JStr ''x'')])
          (JNum 418) JNull = Returns e \<and>
       cls e = ApiError \<and> message e = JStr ''x'' \<and> statusCode e = JNum 418"
proof -
  have wf: "well_formed (JObj [(''name'', JStr ''totally-unknown''), (''message'', JStr ''x'')])"
    by code_simp
  have nm: "truthy (obj_get [(''name'', JStr ''totally-unknown''), (''message'', JStr ''x'')]
      ''name'')"
    by code_simp
  have ty: "type_of_name (obj_get [(''name'', JStr ''totally-unknown''),
      (''message'', JStr ''x'')] ''name'') = ApiError"
    by code_simp
  have nu: "nullish (obj_get [(''name'', JStr ''totally-unknown''), (''message'', JStr ''x'')]
      ''errors'')"
    by code_simp
  from parse_unknown_name[OF wf nm ty, of "''Error''" 418 JNull] nu show ?thesis
    by auto
qed

text \<open>
  Three payloads with a name that is not in the table: the empty name gives a
  \<open>BadRequest\<close> with status 400; the status code 0 gives 500; a member \<open>errors\<close> that is
  not an array makes \<open>parse\<close> throw.
\<close>

theorem parse_unknown_name_counterexample:
  "parse ''Error'' (JObj [(''name'', JStr ''''), (''message'', JStr ''x'')]) (JNum 418) JNull =
     Returns (Instance BadRequest (JStr ''x'') (JStr ''bad-request'') JUndefined (JNum 400)
       JUndefined [(''origin'', JNull), (''errors'', JUndefined)] JUndefined JNull JUndefined
       (JStr ''Error'') JUndefined) \<and>
   parse ''Error'' (JObj [(''name'', JStr ''totally-unknown''), (''message'', JStr ''x'')])
       (JNum 0) JNull =
     Returns (Instance ApiError (JStr ''x'') (JStr ''totally-unknown'') JUndefined (JNum 500)
       JUndefined [(''origin'', JNull), (''errors'', JUndefined)] JUndefined JNull JUndefined
       (JStr ''Error'') JUndefined) \<and>
   parse ''Error'' (JObj [(''name'', JStr ''totally-unknown''), (''message'', JStr ''x''),
       (''errors'', JStr ''none'')]) (JNum 418) JNull = Throws HostTypeError"
  by code_simp

section \<open>The fields of the serialised form\<close>

lemma toJSON_base_shape:
  assumes "toJSON_base stk cfg e = Returns base"
  shows "\<exists>n kp s. base = [(''name'', n), (''message'', message e), (''entity'', entity e),
           (''keyPath'', kp), (''stack'', s)]"
  using assms by (auto simp: toJSON_base_def split: outcome.splits)

lemma merge_errors_member:
  "merge [] [[(''name'', n), (''message'', m), (''entity'', en), (''keyPath'', kp),
              (''stack'', s)], [(''errors'', v)]] =
   [(''name'', n), (''message'', m), (''entity'', en), (''keyPath'', kp), (''stack'', s),
    (''errors'', v)]"
  by (simp add: merge_def merge_obj_empty obj_has_def obj_keys_def)

text \<open>
  Claim C8. Whatever \<open>toJSON\<close> returns, for any instance and any configuration, is a
  mapping whose members are \<open>name\<close>, \<open>message\<close>, \<open>entity\<close>, \<open>keyPath\<close> and \<open>stack\<close>, in this
  order, followed by \<open>errors\<close> for an instance of \<open>Aggregated\<close>. So \<open>origin\<close>, \<open>underlying\<close>
  and \<open>options\<close> are never among them.
\<close>

theorem toJSON_fields:
  assumes "toJSON stk cfg e = Returns j"
  shows "\<exists>kvs. j = JObj kvs \<and>
           obj_keys kvs =
             (if cls e = Aggregated
              then [''name'', ''message'', ''entity'', ''keyPath'', ''stack'', ''errors'']
              else [''name'', ''message'', ''entity'', ''keyPath'', ''stack'']) \<and>
           ''origin'' \<notin> set (obj_keys kvs) \<and> ''underlying'' \<notin> set (obj_keys kvs) \<and>
           ''options'' \<notin> set (obj_keys kvs)"
proof (cases e)
  case (Instance c m n en sc sd ops kp og un st er)
  from assms obtain base where
    b: "toJSON_base stk (default_config cfg) e = Returns base"
    unfolding Instance by (auto split: outcome.splits)
  from toJSON_base_shape[OF b] obtain n' kp' s where
    base: "base = [(''name'', n'), (''message'', message e), (''entity'', entity e),
             (''keyPath'', kp'), (''stack'', s)]"
    by blast
  show ?thesis
  proof (cases "c = Aggregated")
    case False
    with assms b have "j = JObj base" unfolding Instance by simp
    with base False Instance show ?thesis by (simp add: obj_keys_def)
  next
    case True
    with assms b obtain js where "j = JObj (merge [] [base, [(''errors'', JArr js)]])"
      unfolding Instance by (auto split: jsval.splits outcome.splits)
    with base True Instance show ?thesis
      by (simp add: merge_errors_member obj_keys_def)
  qed
qed

theorem toJSON_fields_witness:
  "construct Aggregated ''Error'' (JStr ''several'')
     (JObj [(''errors'', JArr [JErr gone_user, JErr chain_d])]) = Returns several \<and>
   (\<exists>kvs. toJSON frames with_stack several = Returns (JObj kvs) \<and>
      obj_keys kvs = [''name'', ''message'', ''entity'', ''keyPath'', ''stack'', ''errors''] \<and>
      ''origin'' \<notin> set (obj_keys kvs) \<and> ''underlying'' \<notin> set (obj_keys kvs) \<and>
      ''options'' \<notin> set (obj_keys kvs))"
proof -
  have built: "construct Aggregated ''Error'' (JStr ''several'')
     (JObj [(''errors'', JArr [JErr gone_user, JErr chain_d])]) = Returns several"
    by code_simp
  have c: "cls several = Aggregated" by code_simp
  have "toJSON frames with_stack several =
      Returns (JObj [(''name'', JStr ''aggregated''), (''message'', JStr ''several''),
        (''entity'', JUndefined), (''keyPath'', JUndefined), (''stack'', JArr [JStr ''Error'']),
        (''errors'', JArr [
           JObj [(''name'', JStr ''not-found''), (''message'', JStr ''gone''),
             (''entity'', JStr ''user''), (''keyPath'', JStr ''a.b''),
             (''stack'', JArr [JStr ''Error''])],
           JObj [(''name'', JUndefined), (''message'', JStr ''d''), (''entity'', JUndefined),
             (''keyPath'', JUndefined), (''stack'', JArr [JStr ''Error''])]])])"
    by code_simp
  from toJSON_fields[OF this] this built show ?thesis by (simp add: c)
qed

section \<open>Paths and their dotted form\<close>

lemma split_on_no_sep: "c \<notin> set w \<Longrightarrow> split_on c w = [w]"
  by (induction w) auto

lemma split_on_append: "c \<notin> set w \<Longrightarrow> split_on c (w @ c # r) = w # split_on c r"
  by (induction w) auto

lemma split_join:
  "ws \<noteq> [] \<Longrightarrow> (\<forall>w \<in> set ws. c \<notin> set w) \<Longrightarrow> split_on c (join_with [c] ws) = ws"
proof (induction "[c]" ws rule: join_with.induct)
  case 1
  then show ?case by simp
next
  case (2 w)
  then show ?case by (simp add: split_on_no_sep)
next
  case (3 w v ws)
  then show ?case by (simp add: split_on_append)
qed

lemma join_elems_strings: "join_elems (map JStr ws) = Returns ws"
  by (induction ws) simp_all

lemma json_keyPath_undefined: "json_keyPath JUndefined = Returns JUndefined"
  by (simp add: json_keyPath_def)

lemma json_keyPath_strings:
  "ws \<noteq> [] \<Longrightarrow> json_keyPath (JArr (map JStr ws)) = Returns (JStr (join_with ''.'' ws))"
  by (simp add: json_keyPath_def positive_def join_elems_strings)

section \<open>More facts about options\<close>

lemma distinct_obj_set:
  "distinct (map fst a) \<Longrightarrow> distinct (map fst (obj_set k v a))"
  using keys_obj_set[of k v a] by (auto simp: obj_keys_def obj_has_def)

lemma distinct_merge_obj:
  "distinct (map fst a) \<Longrightarrow> distinct (map fst (merge_obj a b))"
proof (induction b arbitrary: a)
  case Nil
  then show ?case by simp
next
  case (Cons kv b)
  then show ?case by (cases kv) (simp add: distinct_obj_set)
qed

lemma obj_get_obj_del: "k \<noteq> k' \<Longrightarrow> obj_get (obj_del k' a) k = obj_get a k"
  by (induction a k rule: obj_get.induct) (auto simp: obj_del_def)

lemma merged_other:
  assumes "distinct (map fst o1)" and "k \<noteq> ''name''" and "k \<noteq> ''statusCode''"
  shows "obj_get (merge [] [o1, fixed_options c o1]) k = obj_get o1 k"
  using assms by (simp add: merge_def merge_obj_empty fixed_options_def obj_get_obj_set)

lemma ApiError_init_rest:
  "keyPath (ApiError_init c trace m o1) =
     (case obj_get o1 ''keyPath'' of JStr s \<Rightarrow> JArr (map JStr (split_on CHR ''.'' s)) | v \<Rightarrow> v)"
  "origin (ApiError_init c trace m o1) = obj_get o1 ''origin''"
  "underlying (ApiError_init c trace m o1) = obj_get o1 ''underlying''"
  by (auto simp: ApiError_init_def Let_def obj_get_obj_del obj_get_obj_set split: jsval.splits)

section \<open>Parsing a serialised instance\<close>

lemma merged_payload:
  fixes d sc og
  defines "opts \<equiv> merge [] [d, [(''message'', obj_get d ''message''), (''statusCode'', sc),
                                  (''origin'', og)]]"
  assumes dist: "distinct (map fst d)"
  shows "distinct (map fst opts)"
    and "k \<notin> {''message'', ''statusCode'', ''origin''} \<Longrightarrow> obj_get opts k = obj_get d k"
    and "merge2 (obj_get d ''message'') (obj_get d ''message'') = obj_get d ''message'' \<Longrightarrow>
         obj_get opts ''message'' = obj_get d ''message''"
proof -
  from dist have d: "merge_obj [] d = d" by (simp add: merge_obj_empty)
  have "opts = merge_obj d [(''message'', obj_get d ''message''), (''statusCode'', sc),
      (''origin'', og)]"
    unfolding opts_def merge_def by (simp only: foldl.simps d)
  then show "distinct (map fst opts)"
    by (simp only: distinct_merge_obj[OF dist])
  show "obj_get opts k = obj_get d k" if "k \<notin> {''message'', ''statusCode'', ''origin''}"
    unfolding opts_def using that by (simp add: merge_def d obj_get_obj_set)
  show "obj_get opts ''message'' = obj_get d ''message''"
    if "merge2 (obj_get d ''message'') (obj_get d ''message'') = obj_get d ''message''"
    unfolding opts_def using that by (simp add: merge_def d obj_get_obj_set)
qed

lemma toJSON_mapping:
  assumes "toJSON stk cfg e = Returns j"
  shows "\<exists>kvs. j = JObj kvs \<and> distinct (map fst kvs) \<and>
           (if cls e = Aggregated
            then \<exists>xs js. errors e = JArr xs \<and> obj_get kvs ''errors'' = JArr js \<and>
                   toJSON_each stk (default_config cfg) xs = Returns js
            else obj_get kvs ''errors'' = JUndefined)"
proof (cases e)
  case (Instance c m n en sc sd ops kp og un st er)
  from assms obtain base where
    b: "toJSON_base stk (default_config cfg) e = Returns base"
    unfolding Instance by (auto split: outcome.splits)
  from toJSON_base_shape[OF b] obtain n' kp' s where
    base: "base = [(''name'', n'), (''message'', message e), (''entity'', entity e),
             (''keyPath'', kp'), (''stack'', s)]"
    by blast
  show ?thesis
  proof (cases "c = Aggregated")
    case False
    with assms b have "j = JObj base" unfolding Instance by simp
    with base False Instance show ?thesis by simp
  next
    case True
    with assms b obtain xs js where "er = JArr xs"
      and "toJSON_each stk (default_config cfg) xs = Returns js"
      and "j = JObj (merge [] [base, [(''errors'', JArr js)]])"
      unfolding Instance by (auto split: jsval.splits outcome.splits)
    with base True Instance show ?thesis
      by (simp add: merge_errors_member)
  qed
qed

lemma parse_returns_when:
  assumes dist: "distinct (map fst d)"
    and errs: "obj_get d ''errors'' = JUndefined \<or>
               (\<exists>xs ys. obj_get d ''errors'' = JArr xs \<and> parse_each trace xs sc og = Returns ys)"
  shows "\<exists>e. parse trace (JObj d) sc og = Returns e"
proof -
  have "obj_get (merge [] [d, [(''message'', obj_get d ''message''), (''statusCode'', sc),
      (''origin'', og)]]) ''errors'' = obj_get d ''errors''"
    by (rule merged_payload(2)[OF dist]) simp
  with errs show ?thesis
    by (subst parse.simps) (auto simp: Let_def construct_options_only)
qed

lemma parse_returns_on_toJSON:
  "toJSON stk cfg e = Returns j \<Longrightarrow> \<exists>e'. parse trace j sc og = Returns e'"
  "toJSON_each stk cfg xs = Returns js \<Longrightarrow> \<exists>es. parse_each trace js sc og = Returns es"
proof (induction stk cfg e and stk cfg xs arbitrary: j and js rule: toJSON_toJSON_each.induct)
  case (1 stk cfg c m n en sc' sd ops kp og' un st er)
  let ?e = "Instance c m n en sc' sd ops kp og' un st er"
  from toJSON_mapping[OF "1.prems"] obtain kvs where j: "j = JObj kvs"
    and dist: "distinct (map fst kvs)"
    and ch: "if cls ?e = Aggregated
            then \<exists>xs js. errors ?e = JArr xs \<and> obj_get kvs ''errors'' = JArr js \<and>
                   toJSON_each stk (default_config cfg) xs = Returns js
            else obj_get kvs ''errors'' = JUndefined"
    by blast
  from "1.prems" obtain base where
    b: "toJSON_base stk (default_config cfg) ?e = Returns base"
    by (auto split: outcome.splits)
  have "obj_get kvs ''errors'' = JUndefined \<or>
      (\<exists>xs ys. obj_get kvs ''errors'' = JArr xs \<and> parse_each trace xs sc og = Returns ys)"
  proof (cases "c = Aggregated")
    case False
    with ch show ?thesis by simp
  next
    case True
    with ch obtain xs js' where er: "er = JArr xs" and g: "obj_get kvs ''errors'' = JArr js'"
      and t: "toJSON_each stk (default_config cfg) xs = Returns js'"
      by auto
    from "1.IH"[OF b True er t] g show ?thesis by blast
  qed
  from parse_returns_when[OF dist this] j show ?case by simp
next
  case (2 stk cfg)
  then show ?case by simp
next
  case (3 stk cfg x xs)
  from "3.prems" obtain child j' js' where x: "x = JErr child"
    and tj: "toJSON stk cfg child = Returns j'"
    and tjs: "toJSON_each stk cfg xs = Returns js'" and js: "js = j' # js'"
    by (auto split: jsval.splits outcome.splits)
  from "3.IH"(1)[OF x tj] obtain e' where pe: "parse trace j' sc og = Returns e'" by blast
  from "3.IH"(2)[OF x tj tjs] obtain es where pes: "parse_each trace js' sc og = Returns es"
    by blast
  from toJSON_mapping[OF tj] have "\<not> nullish j'" by (auto simp: nullish_def)
  with pe pes js show ?case by simp
qed

section \<open>The round trip\<close>

lemma kebab_Nil [simp]: "kebab [] = []"
  by (simp add: kebab_def)

lemma type_of_empty_name [simp]: "type_of_name (JStr []) = ApiError"
  by (simp add: type_of_name_def)

lemma stacked_own:
  "\<not> truthy (underlying e) \<Longrightarrow> truthy (stacked_field e) \<Longrightarrow> stacked stk e = stacked_field e"
  by (simp add: stacked_def actual_none)

lemma construct_from_payload:
  assumes "c \<noteq> ApiError" and "distinct (map fst o1)" and "truthy (obj_get o1 ''message'')"
    and "construct c trace (JObj o1) JUndefined = Returns e'"
  shows "cls e' = c" and "message e' = obj_get o1 ''message''"
    and "entity e' = obj_get o1 ''entity''"
    and "keyPath e' = (case obj_get o1 ''keyPath'' of
           JStr s \<Rightarrow> JArr (map JStr (split_on CHR ''.'' s)) | v \<Rightarrow> v)"
    and "underlying e' = obj_get o1 ''underlying''"
    and "stacked_field e' = obj_get o1 ''stack''"
proof -
  define o2 where "o2 = merge [] [o1, fixed_options c o1]"
  have en: "obj_get o2 ''entity'' = obj_get o1 ''entity''"
    and kp: "obj_get o2 ''keyPath'' = obj_get o1 ''keyPath''"
    and un: "obj_get o2 ''underlying'' = obj_get o1 ''underlying''"
    and st: "obj_get o2 ''stack'' = obj_get o1 ''stack''"
    unfolding o2_def by (simp_all add: merged_other[OF assms(2)])
  from assms(1,3,4) have e': "e' =
      (if c = Aggregated
       then with_errors (ApiError_init c trace (obj_get o1 ''message'') o2) (initial_errors o1)
       else ApiError_init c trace (obj_get o1 ''message'') o2)"
    unfolding o2_def by (auto simp: construct_options_only)
  show "cls e' = c" by (simp add: e')
  show "message e' = obj_get o1 ''message''" by (simp add: e')
  show "entity e' = obj_get o1 ''entity''" by (simp add: e' en)
  show "keyPath e' = (case obj_get o1 ''keyPath'' of
           JStr s \<Rightarrow> JArr (map JStr (split_on CHR ''.'' s)) | v \<Rightarrow> v)"
    by (simp add: e' ApiError_init_rest kp)
  show "underlying e' = obj_get o1 ''underlying''" by (simp add: e' ApiError_init_rest un)
  show "stacked_field e' = obj_get o1 ''stack''" by (simp add: e' st)
qed

lemma parse_result:
  assumes "parse trace (JObj d) sc og = Returns e'"
  shows "\<exists>es. construct (type_of_name (if truthy (obj_get d ''name'') then obj_get d ''name''
                                       else JStr ''bad-request'')) trace
           (JObj (obj_set ''errors'' es
              (merge [] [d, [(''message'', obj_get d ''message''), (''statusCode'', sc),
                             (''origin'', og)]]))) JUndefined = Returns e'"
proof -
  define opts where "opts = merge [] [d, [(''message'', obj_get d ''message''),
    (''statusCode'', sc), (''origin'', og)]]"
  define r where "r = (case obj_get opts ''errors'' of
      JUndefined \<Rightarrow> Returns JUndefined
    | JNull \<Rightarrow> Returns JUndefined
    | JArr xs \<Rightarrow>
        (case parse_each trace xs sc og of
           Returns ys \<Rightarrow> Returns (JArr ys)
         | Throws x \<Rightarrow> Throws x
         | Unmodelled \<Rightarrow> Unmodelled)
    | _ \<Rightarrow> Throws HostTypeError)"
  have p: "parse trace (JObj d) sc og =
      (case r of
         Returns es \<Rightarrow>
           construct (type_of_name (if truthy (obj_get d ''name'') then obj_get d ''name''
                                    else JStr ''bad-request'')) trace
             (JObj (obj_set ''errors'' es opts)) JUndefined
       | Throws x \<Rightarrow> Throws x
       | Unmodelled \<Rightarrow> Unmodelled)"
    unfolding r_def opts_def by (subst parse.simps) (simp add: Let_def)
  from assms show ?thesis
    unfolding p opts_def[symmetric] by (cases r) auto
qed

lemma toJSON_values:
  assumes "toJSON stk cfg e = Returns j"
    and "toJSON_base stk (default_config cfg) e = Returns base"
  shows "\<exists>kvs. j = JObj kvs \<and>
           (\<forall>k. k \<noteq> ''errors'' \<longrightarrow> obj_get kvs k = obj_get base k)"
proof (cases e)
  case (Instance c m n en sc sd ops kp og un st er)
  from toJSON_base_shape[OF assms(2)] obtain n' kp' s where
    base: "base = [(''name'', n'), (''message'', message e), (''entity'', entity e),
             (''keyPath'', kp'), (''stack'', s)]"
    by blast
  show ?thesis
  proof (cases "c = Aggregated")
    case False
    with assms have "j = JObj base" unfolding Instance by simp
    then show ?thesis by simp
  next
    case True
    with assms obtain js where "j = JObj (merge [] [base, [(''errors'', JArr js)]])"
      unfolding Instance by (auto split: jsval.splits outcome.splits)
    with base show ?thesis
      by (simp add: merge_errors_member)
  qed
qed

text \<open>
  Claim C5, as the code has it. Take an instance of one of the thirteen subclasses
  whose name serialises to a wire name that the table maps to the instance's own class
  (so the fixed name of the class, not a custom one), whose message is truthy (a
  message set by a subclass constructor always is) and well-formed (any value of the
  host is), whose \<open>keyPath\<close> is missing or a
  non-empty sequence of strings without a dot, and whose structured stack is truthy.
  If the instance is not an \<open>Aggregated\<close>, \<open>toJSON\<close> returns; and whenever
  \<open>toJSON({includeStack: true})\<close> returns, \<open>parse\<close> of the result with the status code of
  the instance returns an instance of the same class with the same message, entity,
  \<open>keyPath\<close> and structured stack.
\<close>

theorem round_trip:
  assumes c: "cls e \<noteq> ApiError"
    and nm: "name e = JStr nm"
    and ty: "type_of_name (JStr (kebab nm)) = cls e"
    and msg: "truthy (message e)"
    and wf: "well_formed (message e)"
    and kp: "keyPath e = JUndefined \<or>
             (\<exists>ws. ws \<noteq> [] \<and> (\<forall>w \<in> set ws. CHR ''.'' \<notin> set w) \<and>
                   keyPath e = JArr (map JStr ws))"
    and st: "truthy (stacked stk e)"
  shows "(cls e \<noteq> Aggregated \<longrightarrow>
            (\<exists>j. toJSON stk (JObj [(''includeStack'', JBool True)]) e = Returns j)) \<and>
         (\<forall>j. toJSON stk (JObj [(''includeStack'', JBool True)]) e = Returns j \<longrightarrow>
            (\<exists>e'. parse trace j (statusCode e) og = Returns e' \<and> cls e' = cls e \<and>
                  message e' = message e \<and> entity e' = entity e \<and>
                  keyPath e' = keyPath e \<and> stacked stk e' = stacked stk e))"
proof -
  let ?cfg = "JObj [(''includeStack'', JBool True)]"
  from c ty have kn: "kebab nm \<noteq> []" by auto
  then have nn: "nm \<noteq> []" by auto
  from kp obtain kpj where kpj: "json_keyPath (keyPath e) = Returns kpj"
    and undo: "(case kpj of JStr s \<Rightarrow> JArr (map JStr (split_on CHR ''.'' s)) | v \<Rightarrow> v) =
               keyPath e"
  proof
    assume "keyPath e = JUndefined"
    then show ?thesis using that[of JUndefined] by (simp add: json_keyPath_undefined)
  next
    assume "\<exists>ws. ws \<noteq> [] \<and> (\<forall>w \<in> set ws. CHR ''.'' \<notin> set w) \<and>
                 keyPath e = JArr (map JStr ws)"
    then obtain ws where ws: "ws \<noteq> []" "\<forall>w \<in> set ws. CHR ''.'' \<notin> set w"
      "keyPath e = JArr (map JStr ws)"
      by blast
    from split_join[OF ws(1,2)] ws(1,3) show ?thesis
      using that[of "JStr (join_with ''.'' ws)"] by (simp add: json_keyPath_strings)
  qed
  define base where "base = [(''name'', JStr (kebab nm)), (''message'', message e),
    (''entity'', entity e), (''keyPath'', kpj), (''stack'', stacked stk e)]"
  have b: "toJSON_base stk (default_config ?cfg) e = Returns base"
    using nm nn kpj
    by (simp add: toJSON_base_def json_name_def get_prop_def nullish_def default_config_def
          base_def)
  have 1: "\<exists>j. toJSON stk ?cfg e = Returns j" if "cls e \<noteq> Aggregated"
    using that b by (cases e) simp
  have 2: "\<exists>e'. parse trace j (statusCode e) og = Returns e' \<and> cls e' = cls e \<and>
      message e' = message e \<and> entity e' = entity e \<and> keyPath e' = keyPath e \<and>
      stacked stk e' = stacked stk e"
    if tj: "toJSON stk ?cfg e = Returns j" for j
  proof -
    from toJSON_mapping[OF tj] obtain kvs where j: "j = JObj kvs"
      and dist: "distinct (map fst kvs)"
      by blast
    from toJSON_values[OF tj b] j have vals: "\<And>k. k \<noteq> ''errors'' \<Longrightarrow> obj_get kvs k = obj_get base k"
      by simp
    from parse_returns_on_toJSON(1)[OF tj, of trace "statusCode e" og] j
    obtain e' where pe: "parse trace (JObj kvs) (statusCode e) og = Returns e'" by auto
    define opts where "opts = merge [] [kvs, [(''message'', obj_get kvs ''message''),
      (''statusCode'', statusCode e), (''origin'', og)]]"
    have name: "obj_get kvs ''name'' = JStr (kebab nm)"
      and mess: "obj_get kvs ''message'' = message e"
      and enti: "obj_get kvs ''entity'' = entity e"
      and keyp: "obj_get kvs ''keyPath'' = kpj"
      and stac: "obj_get kvs ''stack'' = stacked stk e"
      and unde: "obj_get kvs ''underlying'' = JUndefined"
      by (simp_all add: vals base_def)
    from parse_result[OF pe] name kn ty obtain es where
      con: "construct (cls e) trace (JObj (obj_set ''errors'' es opts)) JUndefined = Returns e'"
      unfolding opts_def by auto
    let ?o = "obj_set ''errors'' es opts"
    have d_opts: "distinct (map fst opts)"
      unfolding opts_def by (rule merged_payload(1)[OF dist])
    then have d_o: "distinct (map fst ?o)" by (rule distinct_obj_set)
    have m: "obj_get opts ''message'' = message e"
      unfolding opts_def using merged_payload(3)[OF dist] merge2_idem[OF wf] mess by simp
    have o_en: "obj_get opts ''entity'' = entity e"
      and o_kp: "obj_get opts ''keyPath'' = kpj"
      and o_st: "obj_get opts ''stack'' = stacked stk e"
      and o_un: "obj_get opts ''underlying'' = JUndefined"
      unfolding opts_def using enti keyp stac unde by (simp_all add: merged_payload(2)[OF dist])
    have tm: "truthy (obj_get ?o ''message'')" using m msg by (simp add: obj_get_obj_set)
    note f = construct_from_payload[OF c d_o tm con]
    have "cls e' = cls e" by (rule f(1))
    moreover have "message e' = message e" using f(2) m by (simp add: obj_get_obj_set)
    moreover have "entity e' = entity e" using f(3) o_en by (simp add: obj_get_obj_set)
    moreover have "keyPath e' = keyPath e" using f(4) o_kp undo by (simp add: obj_get_obj_set)
    moreover have "stacked stk e' = stacked stk e"
    proof -
      from f(5) o_un have "\<not> truthy (underlying e')" by (simp add: obj_get_obj_set)
      moreover from f(6) o_st have sf: "stacked_field e' = stacked stk e"
        by (simp add: obj_get_obj_set)
      ultimately show ?thesis using st by (simp add: stacked_own)
    qed
    ultimately show ?thesis using pe j by blast
  qed
  from 1 2 show ?thesis by blast
qed

theorem round_trip_witness:
  "construct NotFound ''Error'' (JStr ''gone'')
     (JObj [(''entity'', JStr ''user''), (''keyPath'', JStr ''a.b'')]) = Returns gone_user \<and>
   toJSON frames with_stack gone_user =
     Returns (JObj [(''name'', JStr ''not-found''), (''message'', JStr ''gone''),
       (''entity'', JStr ''user''), (''keyPath'', JStr ''a.b''),
       (''stack'', JArr [JStr ''Error''])]) \<and>
   (\<exists>e'. parse ''Later'' (JObj [(''name'', JStr ''not-found''), (''message'', JStr ''gone''),
            (''entity'', JStr ''user''), (''keyPath'', JStr ''a.b''),
            (''stack'', JArr [JStr ''Error''])]) (JNum 404) (JStr ''client'') = Returns e' \<and>
         cls e' = NotFound \<and> message e' = JStr ''gone'' \<and> entity e' = JStr ''user'' \<and>
         keyPath e' = JArr [JStr ''a'', JStr ''b''] \<and>
         stacked frames e' = JArr [JStr ''Error'']) \<and>
   (\<exists>j e'. toJSON frames with_stack several = Returns j \<and>
         parse ''Later'' j (JNum 400) (JStr ''client'') = Returns e' \<and>
         cls e' = Aggregated \<and> message e' = JStr ''several'' \<and> entity e' = JUndefined \<and>
         keyPath e' = JUndefined \<and> stacked frames e' = JArr [JStr ''Error''])"
proof -
  have built: "construct NotFound ''Error'' (JStr ''gone'')
     (JObj [(''entity'', JStr ''user''), (''keyPath'', JStr ''a.b'')]) = Returns gone_user"
    by code_simp
  have c: "cls gone_user \<noteq> ApiError" by code_simp
  have nm: "name gone_user = JStr ''not-found''" by code_simp
  have ty: "type_of_name (JStr (kebab ''not-found'')) = cls gone_user" by code_simp
  have msg: "truthy (message gone_user)" by code_simp
  have wf: "well_formed (message gone_user)" by code_simp
  have "[''a'', ''b''] \<noteq> [] \<and> (\<forall>w \<in> set [''a'', ''b'']. CHR ''.'' \<notin> set w) \<and>
      keyPath gone_user = JArr (map JStr [''a'', ''b''])"
    by code_simp
  then have kp: "keyPath gone_user = JUndefined \<or>
      (\<exists>ws. ws \<noteq> [] \<and> (\<forall>w \<in> set ws. CHR ''.'' \<notin> set w) \<and>
            keyPath gone_user = JArr (map JStr ws))"
    by blast
  have st: "truthy (stacked frames gone_user)" by code_simp
  have tj: "toJSON frames (JObj [(''includeStack'', JBool True)]) gone_user =
     Returns (JObj [(''name'', JStr ''not-found''), (''message'', JStr ''gone''),
       (''entity'', JStr ''user''), (''keyPath'', JStr ''a.b''),
       (''stack'', JArr [JStr ''Error''])])"
    by code_simp
  have vals: "statusCode gone_user = JNum 404" "cls gone_user = NotFound"
    "message gone_user = JStr ''gone''" "entity gone_user = JStr ''user''"
    "keyPath gone_user = JArr [JStr ''a'', JStr ''b'']"
    "stacked frames gone_user = JArr [JStr ''Error'']"
    by code_simp+
  from round_trip[OF c nm ty msg wf kp st, of "''Later''" "JStr ''client''"] tj
  have "\<exists>e'. parse ''Later'' (JObj [(''name'', JStr ''not-found''), (''message'', JStr ''gone''),
            (''entity'', JStr ''user''), (''keyPath'', JStr ''a.b''),
            (''stack'', JArr [JStr ''Error''])]) (statusCode gone_user) (JStr ''client'') =
            Returns e' \<and>
         cls e' = cls gone_user \<and> message e' = message gone_user \<and>
         entity e' = entity gone_user \<and> keyPath e' = keyPath gone_user \<and>
         stacked frames e' = stacked frames gone_user"
    by blast
  then have one: "\<exists>e'. parse ''Later'' (JObj [(''name'', JStr ''not-found''),
            (''message'', JStr ''gone''), (''entity'', JStr ''user''),
            (''keyPath'', JStr ''a.b''), (''stack'', JArr [JStr ''Error''])])
            (JNum 404) (JStr ''client'') = Returns e' \<and>
         cls e' = NotFound \<and> message e' = JStr ''gone'' \<and> entity e' = JStr ''user'' \<and>
         keyPath e' = JArr [JStr ''a'', JStr ''b''] \<and>
         stacked frames e' = JArr [JStr ''Error'']"
    unfolding vals .
  have c2: "cls several \<noteq> ApiError" by code_simp
  have nm2: "name several = JStr ''aggregated''" by code_simp
  have ty2: "type_of_name (JStr (kebab ''aggregated'')) = cls several" by code_simp
  have msg2: "truthy (message several)" by code_simp
  have wf2: "well_formed (message several)" by code_simp
  have "keyPath several = JUndefined" by code_simp
  then have kp2: "keyPath several = JUndefined \<or>
      (\<exists>ws. ws \<noteq> [] \<and> (\<forall>w \<in> set ws. CHR ''.'' \<notin> set w) \<and>
            keyPath several = JArr (map JStr ws))"
    by blast
  have st2: "truthy (stacked frames several)" by code_simp
  have tj2: "toJSON frames (JObj [(''includeStack'', JBool True)]) several =
      Returns (JObj [(''name'', JStr ''aggregated''), (''message'', JStr ''several''),
        (''entity'', JUndefined), (''keyPath'', JUndefined), (''stack'', JArr [JStr ''Error'']),
        (''errors'', JArr [
           JObj [(''name'', JStr ''not-found''), (''message'', JStr ''gone''),
             (''entity'', JStr ''user''), (''keyPath'', JStr ''a.b''),
             (''stack'', JArr [JStr ''Error''])],
           JObj [(''name'', JUndefined), (''message'', JStr ''d''), (''entity'', JUndefined),
             (''keyPath'', JUndefined), (''stack'', JArr [JStr ''Error''])]])])"
    by code_simp
  have vals2: "statusCode several = JNum 400" "cls several = Aggregated"
    "message several = JStr ''several''" "entity several = JUndefined"
    "keyPath several = JUndefined" "stacked frames several = JArr [JStr ''Error'']"
    by code_simp+
  from round_trip[OF c2 nm2 ty2 msg2 wf2 kp2 st2, of "''Later''" "JStr ''client''"] tj2
  have "\<exists>j e'. toJSON frames (JObj [(''includeStack'', JBool True)]) several = Returns j \<and>
         parse ''Later'' j (statusCode several) (JStr ''client'') = Returns e' \<and>
         cls e' = cls several \<and> message e' = message several \<and>
         entity e' = entity several \<and> keyPath e' = keyPath several \<and>
         stacked frames e' = stacked frames several"
    by blast
  then have two: "\<exists>j e'. toJSON frames with_stack several = Returns j \<and>
         parse ''Later'' j (JNum 400) (JStr ''client'') = Returns e' \<and>
         cls e' = Aggregated \<and> message e' = JStr ''several'' \<and> entity e' = JUndefined \<and>
         keyPath e' = JUndefined \<and> stacked frames e' = JArr [JStr ''Error'']"
    unfolding vals2 with_stack_def .
  from tj have "toJSON frames with_stack gone_user =
     Returns (JObj [(''name'', JStr ''not-found''), (''message'', JStr ''gone''),
       (''entity'', JStr ''user''), (''keyPath'', JStr ''a.b''),
       (''stack'', JArr [JStr ''Error''])])"
    unfolding with_stack_def .
  with built one two show ?thesis
    by (intro conjI)
qed

text \<open>
  Two instances of \<open>NotFound\<close> that do not come back. \<open>new NotFound({name: 'custom'})\<close>
  serialises with the name \<open>custom\<close>, which the table does not hold: \<open>parse\<close> builds an
  instance of the base class. \<open>new NotFound({keyPath: ['a.b']})\<close> serialises its path as
  \<open>a.b\<close>, which \<open>parse\<close> splits into two elements.
\<close>

theorem round_trip_counterexample:
  "construct NotFound ''Error'' (JObj [(''name'', JStr ''custom'')]) JUndefined =
     Returns (Instance NotFound (JStr ''Resource not found.'') (JStr ''custom'') JUndefined
       (JNum 404) JUndefined [] JUndefined JUndefined JUndefined (JStr ''Error'') JUndefined) \<and>
   toJSON frames with_stack
     (Instance NotFound (JStr ''Resource not found.'') (JStr ''custom'') JUndefined
       (JNum 404) JUndefined [] JUndefined JUndefined JUndefined (JStr ''Error'') JUndefined) =
     Returns (JObj [(''name'', JStr ''custom''), (''message'', JStr ''Resource not found.''),
       (''entity'', JUndefined), (''keyPath'', JUndefined),
       (''stack'', JArr [JStr ''Error''])]) \<and>
   parse ''Error'' (JObj [(''name'', JStr ''custom''), (''message'', JStr ''Resource not found.''),
       (''entity'', JUndefined), (''keyPath'', JUndefined),
       (''stack'', JArr [JStr ''Error''])]) (JNum 404) JNull =
     Returns (Instance ApiError (JStr ''Resource not found.'') (JStr ''custom'') JUndefined
       (JNum 404) (JArr [JStr ''Error''])
       [(''keyPath'', JUndefined), (''origin'', JNull), (''errors'', JUndefined)]
       JUndefined JNull JUndefined (JStr ''Error'') JUndefined) \<and>
   construct NotFound ''Error'' (JObj [(''keyPath'', JArr [JStr ''a.b''])]) JUndefined =
     Returns (Instance NotFound (JStr ''Resource not found.'') (JStr ''not-found'') JUndefined
       (JNum 404) JUndefined [(''keyPath'', JArr [JStr ''a.b''])] (JArr [JStr ''a.b''])
       JUndefined JUndefined (JStr ''Error'') JUndefined) \<and>
   toJSON frames with_stack
     (Instance NotFound (JStr ''Resource not found.'') (JStr ''not-found'') JUndefined
       (JNum 404) JUndefined [(''keyPath'', JArr [JStr ''a.b''])] (JArr [JStr ''a.b''])
       JUndefined JUndefined (JStr ''Error'') JUndefined) =
     Returns (JObj [(''name'', JStr ''not-found''), (''message'', JStr ''Resource not found.''),
       (''entity'', JUndefined), (''keyPath'', JStr ''a.b''),
       (''stack'', JArr [JStr ''Error''])]) \<and>
   parse ''Error'' (JObj [(''name'', JStr ''not-found''),
       (''message'', JStr ''Resource not found.''), (''entity'', JUndefined),
       (''keyPath'', JStr ''a.b''), (''stack'', JArr [JStr ''Error''])]) (JNum 404) JNull =
     Returns (Instance NotFound (JStr ''Resource not found.'') (JStr ''not-found'') JUndefined
       (JNum 404) (JArr [JStr ''Error''])
       [(''keyPath'', JArr [JStr ''a'', JStr ''b'']), (''origin'', JNull),
        (''errors'', JUndefined)]
       (JArr [JStr ''a'', JStr ''b'']) JNull JUndefined (JStr ''Error'') JUndefined)"
  by code_simp

end
